theory Spec2Isabelle
  imports Complex_Main "HOL-Library.Sublist" "HOL-Library.AList"
begin

section \<open>Strings\<close>

text \<open>
  A Python \<^verbatim>\<open>str\<close> is a sequence of Unicode code points, so a string is modelled as a
  list of code points; \<open>str\<close> embeds an ASCII literal.
\<close>

type_synonym pystr = "nat list"

definition str :: "string \<Rightarrow> pystr" where
  "str s = map of_char s"

section \<open>The sanitizer: \<^verbatim>\<open>Agent.get_clean_response\<close>\<close>

text \<open>
  \<^verbatim>\<open>re.sub(r'<think>.*?</think>', '', response, flags=re.DOTALL)\<close> scans the text from the
  left. At a position where \<^verbatim>\<open><think>\<close> starts, the lazy \<^verbatim>\<open>.*?\<close> (which, under DOTALL,
  matches every character) is extended until the first \<^verbatim>\<open></think>\<close> behind the opening
  marker; the whole match is replaced by the empty string and the scan goes on behind it.
  Where no match starts, the character is kept and the scan moves one position on.
\<close>

definition open_tag :: pystr where
  "open_tag = str ''<think>''"

definition close_tag :: pystr where
  "close_tag = str ''</think>''"

text \<open>\<open>find_close s\<close> is the text behind the first closing marker of \<open>s\<close>, if there is one.\<close>

fun find_close :: "pystr \<Rightarrow> pystr option" where
  "find_close [] = None"
| "find_close (c # cs) =
     (if prefix close_tag (c # cs) then Some (drop (length close_tag) (c # cs))
      else find_close cs)"

lemma length_close_tag: "length close_tag = 8"
  by (simp add: close_tag_def str_def)

lemma length_open_tag: "length open_tag = 7"
  by (simp add: open_tag_def str_def)

lemma find_close_shorter: "find_close s = Some r \<Longrightarrow> length r < length s"
proof (induction s)
  case Nil
  then show ?case by simp
next
  case (Cons c cs)
  show ?case
  proof (cases "prefix close_tag (c # cs)")
    case True
    with Cons.prems have "r = drop (length close_tag) (c # cs)" by simp
    then show ?thesis by (simp add: length_close_tag)
  next
    case False
    with Cons.prems have "find_close cs = Some r" by simp
    then have "length r < length cs" by (rule Cons.IH)
    then show ?thesis by simp
  qed
qed

function strip_think :: "pystr \<Rightarrow> pystr" where
  "strip_think [] = []"
| "strip_think (c # cs) =
     (if prefix open_tag (c # cs) then
        (case find_close (drop (length open_tag) (c # cs)) of
           Some rest \<Rightarrow> strip_think rest
         | None \<Rightarrow> c # strip_think cs)
      else c # strip_think cs)"
  by pat_completeness auto
termination
proof (relation "measure length")
  show "wf (measure length)" by simp
next
  fix c :: nat and cs rest :: pystr
  assume "find_close (drop (length open_tag) (c # cs)) = Some rest"
  then have "length rest < length (drop (length open_tag) (c # cs))"
    by (rule find_close_shorter)
  then show "(rest, c # cs) \<in> measure length" by simp
next
  fix c :: nat and cs :: pystr
  show "(cs, c # cs) \<in> measure length" by simp
next
  fix c :: nat and cs :: pystr
  show "(cs, c # cs) \<in> measure length" by simp
qed

text \<open>
  \<^verbatim>\<open>str.strip()\<close> without argument removes leading and trailing whitespace, that is the
  code points for which \<^verbatim>\<open>str.isspace\<close> holds: U+0009..U+000D, U+001C..U+0020, U+0085,
  U+00A0, U+1680, U+2000..U+200A, U+2028, U+2029, U+202F, U+205F and U+3000.
\<close>

definition is_space :: "nat \<Rightarrow> bool" where
  "is_space c = (c \<in> set ([9, 10, 11, 12, 13, 28, 29, 30, 31, 32, 133, 160, 5760]
      @ [8192 ..< 8203] @ [8232, 8233, 8239, 8287, 12288]))"

definition strip :: "pystr \<Rightarrow> pystr" where
  "strip s = rev (dropWhile is_space (rev (dropWhile is_space s)))"

definition get_clean_response :: "pystr \<Rightarrow> pystr" where
  "get_clean_response response = strip (strip_think response)"

text \<open>\<open>occurs p s\<close>: the text \<open>p\<close> is a substring of \<open>s\<close>.\<close>

fun occurs :: "pystr \<Rightarrow> pystr \<Rightarrow> bool" where
  "occurs p [] = (p = [])"
| "occurs p (c # cs) = (prefix p (c # cs) \<or> occurs p cs)"

text \<open>
  \<open>has_span s\<close>: somewhere in \<open>s\<close> an opening marker is followed by a closing marker, so
  that the regular expression has a match in \<open>s\<close>.
\<close>

fun has_span :: "pystr \<Rightarrow> bool" where
  "has_span [] = False"
| "has_span (c # cs) =
     ((prefix open_tag (c # cs) \<and> find_close (drop (length open_tag) (c # cs)) \<noteq> None)
      \<or> has_span cs)"


section \<open>Agents\<close>

record message =
  role :: pystr
  content :: pystr

text \<open>Values read from the YAML configuration; Python does not restrict their types.\<close>

datatype yaml =
    YNone
  | YBool bool
  | YInt int
  | YFloat rat
  | YStr pystr
  | YList "yaml list"
  | YDict "(pystr \<times> yaml) list"

record Agent =
  name :: pystr
  model_name :: yaml
  system_prompt :: yaml
  conversation_history :: "message list"

definition Agent_init :: "pystr \<Rightarrow> yaml \<Rightarrow> yaml \<Rightarrow> Agent" where
  "Agent_init n m p =
     \<lparr>name = n, model_name = m, system_prompt = p, conversation_history = []\<rparr>"

definition add_message :: "Agent \<Rightarrow> pystr \<Rightarrow> pystr \<Rightarrow> Agent" where
  "add_message self r c =
     self\<lparr>conversation_history := conversation_history self @ [\<lparr>role = r, content = c\<rparr>]\<rparr>"

section \<open>Exceptions and dictionary access\<close>

text \<open>
  The exceptions the code can meet, all of them subclasses of \<^verbatim>\<open>Exception\<close>. \<open>Raised m\<close> is
  an exception with message \<open>m\<close> raised by a collaborator outside the repository: the ollama
  client, \<^verbatim>\<open>open\<close> or \<^verbatim>\<open>yaml.safe_load\<close>.
\<close>

datatype error = KeyError pystr | TypeError | AttributeError | Raised pystr

text \<open>\<^verbatim>\<open>d[k]\<close>, \<^verbatim>\<open>d.get(k, default)\<close> and \<^verbatim>\<open>d.items()\<close> for a string key \<open>k\<close>.\<close>

fun py_getitem :: "yaml \<Rightarrow> pystr \<Rightarrow> error + yaml" where
  "py_getitem (YDict d) k = (case map_of d k of None \<Rightarrow> Inl (KeyError k) | Some v \<Rightarrow> Inr v)"
| "py_getitem _ k = Inl TypeError"

fun py_get :: "yaml \<Rightarrow> pystr \<Rightarrow> yaml \<Rightarrow> error + yaml" where
  "py_get (YDict d) k dflt = Inr (case map_of d k of None \<Rightarrow> dflt | Some v \<Rightarrow> v)"
| "py_get _ k dflt = Inl AttributeError"

fun py_items :: "yaml \<Rightarrow> error + (pystr \<times> yaml) list" where
  "py_items (YDict d) = Inr d"
| "py_items _ = Inl AttributeError"

section \<open>The model runtime\<close>

text \<open>
  What \<^verbatim>\<open>ollama.chat\<close> is called with, and what the caller sees of its result: the call
  raises, or it returns a stream whose iteration yields the \<^verbatim>\<open>chunk['message']['content']\<close>
  of the chunks in turn and then ends, normally or with an exception. The runtime itself is
  a parameter of the model.
\<close>

record request =
  model :: yaml
  messages :: "message list"
  stream :: yaml
  temperature :: yaml

datatype reply = Raises error | Stream "pystr list" "error option"

text \<open>
  What is printed: \<open>Out s\<close> is the text \<open>s\<close>, and \<open>OutError p e\<close> is the text \<open>p\<close> followed
  by \<^verbatim>\<open>str(e)\<close> and a line break.
\<close>

datatype event = Out pystr | OutError pystr error

definition default_temperature :: yaml where
  "default_temperature = YFloat (7 / 10)"

section \<open>\<^verbatim>\<open>Agent.stream_chat\<close>\<close>

text \<open>The request of lines 40 to 47; evaluating its arguments can raise.\<close>

definition stream_chat_request :: "Agent \<Rightarrow> yaml \<Rightarrow> error + request" where
  "stream_chat_request self chat_settings =
     (case py_get chat_settings (str ''temperature'') default_temperature of
        Inl e \<Rightarrow> Inl e
      | Inr t \<Rightarrow> Inr \<lparr>model = model_name self, messages = conversation_history self,
                      stream = YBool True, temperature = t\<rparr>)"

text \<open>
  The body of the \<^verbatim>\<open>try\<close>: the agent and the output at the point where the body ends,
  and the exception that ended it, if one did.
\<close>

definition stream_chat_try ::
  "(request \<Rightarrow> reply) \<Rightarrow> Agent \<Rightarrow> pystr \<Rightarrow> yaml \<Rightarrow> Agent \<times> event list \<times> error option" where
  "stream_chat_try ollama_chat self msg chat_settings =
     (let self1 = add_message self (str ''user'') msg;
          header = Out ([10] @ name self1 @ str '': '')
      in case stream_chat_request self1 chat_settings of
           Inl e \<Rightarrow> (self1, [header], Some e)
         | Inr req \<Rightarrow>
             (case ollama_chat req of
                Raises e \<Rightarrow> (self1, [header], Some e)
              | Stream chunks (Some e) \<Rightarrow> (self1, header # map Out chunks, Some e)
              | Stream chunks None \<Rightarrow>
                  (add_message self1 (str ''assistant'') (get_clean_response (concat chunks)),
                   header # map Out chunks @ [Out [10]], None)))"

definition stream_chat ::
  "(request \<Rightarrow> reply) \<Rightarrow> Agent \<Rightarrow> pystr \<Rightarrow> yaml \<Rightarrow> Agent \<times> event list" where
  "stream_chat ollama_chat self msg chat_settings =
     (case stream_chat_try ollama_chat self msg chat_settings of
        (self', out, None) \<Rightarrow> (self', out)
      | (self', out, Some e) \<Rightarrow>
          (self', out @ [OutError (str ''Error from '' @ name self' @ str '': '') e]))"




section \<open>\<^verbatim>\<open>chat_with_model\<close> (chat_with_model.py)\<close>

definition chat_with_model_request :: "yaml \<Rightarrow> pystr \<Rightarrow> yaml \<Rightarrow> error + request" where
  "chat_with_model_request mname msg chat_settings =
     (case py_get chat_settings (str ''stream'') (YBool True) of
        Inl e \<Rightarrow> Inl e
      | Inr s \<Rightarrow>
          (case py_get chat_settings (str ''temperature'') default_temperature of
             Inl e \<Rightarrow> Inl e
           | Inr t \<Rightarrow> Inr \<lparr>model = mname, messages = [\<lparr>role = str ''user'', content = msg\<rparr>],
                           stream = s, temperature = t\<rparr>))"

definition chat_with_model :: "(request \<Rightarrow> reply) \<Rightarrow> yaml \<Rightarrow> pystr \<Rightarrow> yaml \<Rightarrow> event list" where
  "chat_with_model ollama_chat mname msg chat_settings =
     (let failed = (\<lambda>e. OutError (str ''An error occurred: '') e);
          banner = Out ([10] @ str ''Model response:'' @ [10])
      in case chat_with_model_request mname msg chat_settings of
           Inl e \<Rightarrow> [failed e]
         | Inr req \<Rightarrow>
             (case ollama_chat req of
                Raises e \<Rightarrow> [failed e]
              | Stream chunks (Some e) \<Rightarrow> banner # map Out chunks @ [failed e]
              | Stream chunks None \<Rightarrow> banner # map Out chunks @ [Out [10, 10]]))"

section \<open>Configuration and agent setup\<close>

text \<open>
  \<^verbatim>\<open>load_config\<close>: what reading and parsing the file gives is a parameter; when
  \<^verbatim>\<open>open\<close> or \<^verbatim>\<open>yaml.safe_load\<close> raises, the error is printed and the empty dictionary
  is returned.
\<close>

datatype file_outcome = Parsed yaml | ReadFails error

definition load_config :: "file_outcome \<Rightarrow> yaml \<times> event list" where
  "load_config f =
     (case f of
        Parsed y \<Rightarrow> (y, [])
      | ReadFails e \<Rightarrow> (YDict [], [OutError (str ''Error loading config: '') e]))"

text \<open>
  The body of the \<^verbatim>\<open>try\<close> in \<^verbatim>\<open>setup_agents\<close>, for one entry of the configuration.
  \<open>ollama_create\<close> is \<^verbatim>\<open>ollama.create\<close>: it returns the exception it raises, if any.
\<close>

definition create_agent ::
  "(yaml \<Rightarrow> yaml \<Rightarrow> yaml \<Rightarrow> error option) \<Rightarrow> pystr \<Rightarrow> yaml \<Rightarrow> error + Agent" where
  "create_agent ollama_create model_key model_config =
     (case py_getitem model_config (str ''custom_name'') of
        Inl e \<Rightarrow> Inl e
      | Inr custom_name \<Rightarrow>
     (case py_getitem model_config (str ''base_model'') of
        Inl e \<Rightarrow> Inl e
      | Inr base_model \<Rightarrow>
     (case py_getitem model_config (str ''system_prompt'') of
        Inl e \<Rightarrow> Inl e
      | Inr sys_prompt \<Rightarrow>
     (case ollama_create custom_name base_model sys_prompt of
        Some e \<Rightarrow> Inl e
      | None \<Rightarrow> Inr (Agent_init model_key custom_name sys_prompt)))))"

fun setup_loop ::
  "(yaml \<Rightarrow> yaml \<Rightarrow> yaml \<Rightarrow> error option) \<Rightarrow> (pystr \<times> yaml) list
    \<Rightarrow> (pystr \<times> Agent) list \<Rightarrow> event list \<Rightarrow> (pystr \<times> Agent) list \<times> event list" where
  "setup_loop ollama_create [] agts out = (agts, out)"
| "setup_loop ollama_create ((model_key, model_config) # rest) agts out =
     (case create_agent ollama_create model_key model_config of
        Inl e \<Rightarrow>
          setup_loop ollama_create rest agts
            (out @ [OutError (str ''Error creating agent '' @ model_key @ str '': '') e])
      | Inr agent \<Rightarrow>
          setup_loop ollama_create rest (AList.update model_key agent agts)
            (out @ [Out (str ''Created agent: '' @ model_key @ [10])]))"

text \<open>
  \<^verbatim>\<open>setup_agents\<close>: \<^verbatim>\<open>self.config['models'].items()\<close> is evaluated outside every
  \<^verbatim>\<open>try\<close>, so its exception leaves the method.
\<close>

definition setup_agents ::
  "(yaml \<Rightarrow> yaml \<Rightarrow> yaml \<Rightarrow> error option) \<Rightarrow> yaml
    \<Rightarrow> error + ((pystr \<times> Agent) list \<times> event list)" where
  "setup_agents ollama_create cfg =
     (case py_getitem cfg (str ''models'') of
        Inl e \<Rightarrow> Inl e
      | Inr models \<Rightarrow>
          (case py_items models of
             Inl e \<Rightarrow> Inl e
           | Inr items \<Rightarrow> Inr (setup_loop ollama_create items [] [])))"

text \<open>The worker pool of the constructor: \<^verbatim>\<open>ThreadPoolExecutor(max_workers=10)\<close>.\<close>

definition max_workers :: nat where
  "max_workers = 10"

record MultiAgentChat =
  config :: yaml
  agents :: "(pystr \<times> Agent) list"

text \<open>\<^verbatim>\<open>MultiAgentChat.__init__\<close>: the object and what was printed, or the exception.\<close>

definition MultiAgentChat_init ::
  "file_outcome \<Rightarrow> (yaml \<Rightarrow> yaml \<Rightarrow> yaml \<Rightarrow> error option)
    \<Rightarrow> event list \<times> (error + MultiAgentChat)" where
  "MultiAgentChat_init f ollama_create =
     (case load_config f of
        (cfg, out) \<Rightarrow>
          (case setup_agents ollama_create cfg of
             Inl e \<Rightarrow> (out, Inl e)
           | Inr (agts, out') \<Rightarrow> (out @ out', Inr \<lparr>config = cfg, agents = agts\<rparr>)))"

text \<open>
  The start of \<^verbatim>\<open>main\<close>, lines 134 to 140, up to the first \<^verbatim>\<open>input\<close>: an exception
  that nothing catches ends the process with a traceback, \<^verbatim>\<open>sys.exit(1)\<close> ends it with
  status 1, and otherwise the agents are listed and the chat system is ready.
\<close>

datatype startup = Uncaught error | SysExit nat | Ready MultiAgentChat

definition list_agents :: "MultiAgentChat \<Rightarrow> event list" where
  "list_agents self =
     Out ([10] @ str ''Available agents:'' @ [10])
       # map (\<lambda>agent_name. Out (str ''- '' @ agent_name @ [10])) (map fst (agents self))"

definition main_startup ::
  "file_outcome \<Rightarrow> (yaml \<Rightarrow> yaml \<Rightarrow> yaml \<Rightarrow> error option) \<Rightarrow> event list \<times> startup" where
  "main_startup f ollama_create =
     (case MultiAgentChat_init f ollama_create of
        (out, Inl e) \<Rightarrow> (out, Uncaught e)
      | (out, Inr chat_system) \<Rightarrow>
          (if agents chat_system = []
           then (out @ [Out (str ''No agents available. Exiting.'' @ [10])], SysExit 1)
           else (out @ list_agents chat_system, Ready chat_system)))"

section \<open>\<^verbatim>\<open>MultiAgentChat.chat_with_agents\<close>\<close>

text \<open>
  The main thread submits one work item per registered target name to the pool and then
  waits for each future in turn; the worker threads run \<^verbatim>\<open>stream_chat\<close> on the submitted
  agents at the same time. The model is an interleaving of atomic steps, chosen by a
  schedule. A work item is at one of these points of \<^verbatim>\<open>stream_chat\<close>:
  \<^item> \<open>Queued\<close>: submitted, not yet taken by a worker thread;
  \<^item> \<open>L33\<close>: about to append the user message;
  \<^item> \<open>L36\<close>: about to print the agent's name;
  \<^item> \<open>L40\<close>: about to call \<^verbatim>\<open>ollama.chat\<close>;
  \<^item> \<open>L49 chunks err full_response\<close>: in the loop over the stream, with the chunks still to
    come, the exception that ends the stream (if any) and the text accumulated so far;
  \<^item> \<open>L59\<close>: about to print the final line break;
  \<^item> \<open>Done\<close>: returned, so that the future has its result.
\<close>

datatype task_pc =
    Queued
  | L33
  | L36
  | L40
  | L49 "pystr list" "error option" pystr
  | L59
  | Done

record task =
  agent_key :: pystr
  tpc :: task_pc

text \<open>
  The main thread is in the loop over the target names (\<open>L121\<close>, with the names still to
  come), in the loop over the futures (\<open>L130\<close>, with the index of the future it waits
  for), or has returned.
\<close>

datatype main_pc = L121 "pystr list" | L130 nat | Returned

datatype thread = MainThread | WorkerThread nat

text \<open>
  The state: the agent objects of the registry, the arguments of the call, the list
  \<^verbatim>\<open>futures\<close> (every work item is submitted with the same message and settings), what the
  threads have printed, and the position of the main thread.
\<close>

record state =
  registry :: "(pystr \<times> Agent) list"
  user_message :: pystr
  batch_settings :: yaml
  futures :: "task list"
  printed :: "(thread \<times> event) list"
  mpc :: main_pc

text \<open>Lines 115 to 118: the exception of \<^verbatim>\<open>self.config.get\<close>, or the state before the loops.\<close>

definition chat_with_agents_init :: "MultiAgentChat \<Rightarrow> pystr \<Rightarrow> pystr list \<Rightarrow> error + state" where
  "chat_with_agents_init self msg agent_names =
     (case py_get (config self) (str ''chat_settings'') (YDict []) of
        Inl e \<Rightarrow> Inl e
      | Inr cs \<Rightarrow>
          Inr \<lparr>registry = agents self, user_message = msg, batch_settings = cs, futures = [],
               printed = [(MainThread, Out ([10] @ str ''Responses:'' @ [10]))],
               mpc = L121 agent_names\<rparr>)"

definition emit :: "thread \<Rightarrow> event \<Rightarrow> state \<Rightarrow> state" where
  "emit th ev st = st\<lparr>printed := printed st @ [(th, ev)]\<rparr>"

definition set_tpc :: "nat \<Rightarrow> task_pc \<Rightarrow> state \<Rightarrow> state" where
  "set_tpc i p st = st\<lparr>futures := (futures st)[i := (futures st ! i)\<lparr>tpc := p\<rparr>]\<rparr>"

definition update_agent :: "pystr \<Rightarrow> (Agent \<Rightarrow> Agent) \<Rightarrow> state \<Rightarrow> state" where
  "update_agent k f st = st\<lparr>registry := AList.map_entry k f (registry st)\<rparr>"

text \<open>One step of the main thread; \<open>None\<close> when it is blocked in \<^verbatim>\<open>future.result()\<close>.\<close>

definition main_step :: "state \<Rightarrow> state option" where
  "main_step st =
     (case mpc st of
        L121 [] \<Rightarrow> Some (st\<lparr>mpc := L130 0\<rparr>)
      | L121 (agent_name # rest) \<Rightarrow>
          (if map_of (registry st) agent_name \<noteq> None
           then Some (st\<lparr>futures := futures st @ [\<lparr>agent_key = agent_name, tpc = Queued\<rparr>],
                         mpc := L121 rest\<rparr>)
           else Some ((emit MainThread
                         (Out ([10] @ agent_name @ str '': Agent not found'' @ [10])) st)
                       \<lparr>mpc := L121 rest\<rparr>))
      | L130 k \<Rightarrow>
          (if k < length (futures st)
           then (if tpc (futures st ! k) = Done then Some (st\<lparr>mpc := L130 (Suc k)\<rparr>) else None)
           else Some (st\<lparr>mpc := Returned\<rparr>))
      | Returned \<Rightarrow> None)"

text \<open>The number of work items that a worker thread is running.\<close>

definition running :: "state \<Rightarrow> nat" where
  "running st = length (filter (\<lambda>t. tpc t \<noteq> Queued \<and> tpc t \<noteq> Done) (futures st))"

text \<open>The \<^verbatim>\<open>except\<close> branch of \<^verbatim>\<open>stream_chat\<close>: the error is printed and the call returns.\<close>

definition fail :: "nat \<Rightarrow> Agent \<Rightarrow> error \<Rightarrow> state \<Rightarrow> state" where
  "fail i self e st =
     set_tpc i Done
       (emit (WorkerThread i) (OutError (str ''Error from '' @ name self @ str '': '') e) st)"

text \<open>
  One step of the work item \<open>i\<close>; \<open>None\<close> when it has none. A queued item is started
  when fewer than \<open>max_workers\<close> items are running and no earlier item waits in the queue.
  \<open>ollama_chat i\<close> is the runtime as the work item \<open>i\<close> meets it.
\<close>

definition worker_step :: "(nat \<Rightarrow> request \<Rightarrow> reply) \<Rightarrow> nat \<Rightarrow> state \<Rightarrow> state option" where
  "worker_step ollama_chat i st =
     (if length (futures st) \<le> i then None
      else
        (case map_of (registry st) (agent_key (futures st ! i)) of
           None \<Rightarrow> None
         | Some self \<Rightarrow>
             (case tpc (futures st ! i) of
                Queued \<Rightarrow>
                  (if running st < max_workers
                       \<and> list_all (\<lambda>t. tpc t \<noteq> Queued) (take i (futures st))
                   then Some (set_tpc i L33 st) else None)
              | L33 \<Rightarrow>
                  Some (set_tpc i L36
                    (update_agent (agent_key (futures st ! i))
                       (\<lambda>a. add_message a (str ''user'') (user_message st)) st))
              | L36 \<Rightarrow>
                  Some (set_tpc i L40
                    (emit (WorkerThread i) (Out ([10] @ name self @ str '': '')) st))
              | L40 \<Rightarrow>
                  (case stream_chat_request self (batch_settings st) of
                     Inl e \<Rightarrow> Some (fail i self e st)
                   | Inr req \<Rightarrow>
                       (case ollama_chat i req of
                          Raises e \<Rightarrow> Some (fail i self e st)
                        | Stream chunks err \<Rightarrow> Some (set_tpc i (L49 chunks err []) st)))
              | L49 chunks err full_response \<Rightarrow>
                  (case chunks of
                     c # rest \<Rightarrow>
                       Some (set_tpc i (L49 rest err (full_response @ c))
                         (emit (WorkerThread i) (Out c) st))
                   | [] \<Rightarrow>
                       (case err of
                          Some e \<Rightarrow> Some (fail i self e st)
                        | None \<Rightarrow>
                            Some (set_tpc i L59
                              (update_agent (agent_key (futures st ! i))
                                 (\<lambda>a. add_message a (str ''assistant'')
                                        (get_clean_response full_response)) st))))
              | L59 \<Rightarrow> Some (set_tpc i Done (emit (WorkerThread i) (Out [10]) st))
              | Done \<Rightarrow> None)))"

datatype action = Main | Worker nat

definition step :: "(nat \<Rightarrow> request \<Rightarrow> reply) \<Rightarrow> state \<Rightarrow> action \<Rightarrow> state option" where
  "step ollama_chat st a =
     (case a of Main \<Rightarrow> main_step st | Worker i \<Rightarrow> worker_step ollama_chat i st)"

text \<open>A schedule is run step by step; it is refused when one of its steps is not enabled.\<close>

fun run :: "(nat \<Rightarrow> request \<Rightarrow> reply) \<Rightarrow> state \<Rightarrow> action list \<Rightarrow> state option" where
  "run ollama_chat st [] = Some st"
| "run ollama_chat st (a # as) =
     (case step ollama_chat st a of None \<Rightarrow> None | Some st' \<Rightarrow> run ollama_chat st' as)"

section \<open>Notions for the invariants of the dispatch\<close>

text \<open>
  Auxiliary notions for the invariants: the target names the main thread has still to go
  through, whether a name is a key of the registry, what the main thread has printed, and the
  line printed for an unknown name.
\<close>

definition pending :: "state \<Rightarrow> pystr list" where
  "pending st = (case mpc st of L121 rest \<Rightarrow> rest | _ \<Rightarrow> [])"

definition registered :: "(pystr \<times> Agent) list \<Rightarrow> pystr \<Rightarrow> bool" where
  "registered reg k = (map_of reg k \<noteq> None)"

definition main_printed :: "state \<Rightarrow> event list" where
  "main_printed st = map snd (filter (\<lambda>p. fst p = MainThread) (printed st))"

definition not_found_line :: "pystr \<Rightarrow> event" where
  "not_found_line agent_name = Out ([10] @ agent_name @ str '': Agent not found'' @ [10])"

text \<open>The work items submitted so far and the names still to come make up the registered
  target names; the lines of the main thread and those still to come make up one line per
  unknown target name, behind the heading.\<close>

definition accounted :: "pystr list \<Rightarrow> state \<Rightarrow> bool" where
  "accounted agent_names st =
     (map agent_key (futures st) @ filter (registered (registry st)) (pending st)
        = filter (registered (registry st)) agent_names
      \<and> main_printed st
          @ map not_found_line (filter (\<lambda>n. \<not> registered (registry st) n) (pending st))
        = Out ([10] @ str ''Responses:'' @ [10])
            # map not_found_line (filter (\<lambda>n. \<not> registered (registry st) n) agent_names))"

text \<open>While the main thread waits for the future \<open>k\<close>, the futures before it are done; when
  it has returned, all of them are.\<close>

definition joined :: "state \<Rightarrow> bool" where
  "joined st =
     (case mpc st of
        L121 rest \<Rightarrow> True
      | L130 k \<Rightarrow> k \<le> length (futures st) \<and> list_all (\<lambda>t. tpc t = Done) (take k (futures st))
      | Returned \<Rightarrow> list_all (\<lambda>t. tpc t = Done) (futures st))"

section \<open>Example data\<close>

text \<open>
  A registry with the single agent \<open>X\<close>, a runtime that answers in two chunks and one that
  refuses the connection; they are the concrete inputs of the examples below.
\<close>

definition example_agent :: Agent where
  "example_agent = Agent_init (str ''X'') (YStr (str ''x-model'')) (YStr (str ''You are X.''))"

definition example_chat :: MultiAgentChat where
  "example_chat = \<lparr>config = YDict [], agents = [(str ''X'', example_agent)]\<rparr>"

definition answering_runtime :: "request \<Rightarrow> reply" where
  "answering_runtime req = Stream [str ''Hel'', str ''lo''] None"

definition failing_runtime :: "request \<Rightarrow> reply" where
  "failing_runtime req = Raises (Raised (str ''connection refused''))"

text \<open>The state in which the batch for the target names starts.\<close>

definition example_start :: "pystr list \<Rightarrow> state" where
  "example_start agent_names =
     \<lparr>registry = [(str ''X'', example_agent)], user_message = str ''hi'',
      batch_settings = YDict [], futures = [],
      printed = [(MainThread, Out ([10] @ str ''Responses:'' @ [10]))],
      mpc = L121 agent_names\<rparr>"

text \<open>
  A schedule for the batch \<open>X\<close>, \<open>ghost\<close>: the main thread goes through the two names and
  starts to wait, the work item of \<open>X\<close> runs to its end, and the main thread collects the
  future and returns.
\<close>

definition example_schedule :: "action list" where
  "example_schedule =
     [Main, Main, Main, Worker 0, Worker 0, Worker 0, Worker 0, Worker 0, Worker 0, Worker 0,
      Worker 0, Main, Main]"


text \<open>
  The request of the first chat turn of \<open>X\<close> with the message \<open>hi\<close> and empty settings, and a
  state of the dispatch in which the work item of \<open>X\<close> has appended the user turn, has printed
  the name and is about to call the runtime.
\<close>

definition example_request :: request where
  "example_request =
     \<lparr>model = YStr (str ''x-model''),
      messages = [\<lparr>role = str ''user'', content = str ''hi''\<rparr>],
      stream = YBool True, temperature = default_temperature\<rparr>"

definition example_at_call :: state where
  "example_at_call =
     \<lparr>registry = [(str ''X'', add_message example_agent (str ''user'') (str ''hi''))],
      user_message = str ''hi'', batch_settings = YDict [],
      futures = [\<lparr>agent_key = str ''X'', tpc = L40\<rparr>],
      printed = [(MainThread, Out ([10] @ str ''Responses:'' @ [10])),
                 (WorkerThread 0, Out ([10] @ str ''X'' @ str '': ''))],
      mpc = L130 0\<rparr>"

section \<open>Properties of the sanitizer\<close>

lemmas tag_defs = open_tag_def close_tag_def str_def

lemma open_tag_Cons: "open_tag = 60 # tl open_tag"
  by (simp add: tag_defs)


lemma lt_notin_tl_open: "60 \<notin> set (tl open_tag)"
  by (simp add: tag_defs)

lemma lt_notin_tl_close: "60 \<notin> set (tl close_tag)"
  by (simp add: tag_defs)

lemma not_prefix_close_open: "\<not> prefix close_tag (open_tag @ s)"
  by (simp add: tag_defs)

lemma not_prefix_open_close: "\<not> prefix open_tag (close_tag @ s)"
  by (simp add: tag_defs)

text \<open>A marker cannot straddle the start of a following marker: \<open><\<close> only occurs at its start.\<close>

lemma tag_split:
  assumes "p = x @ us" and "us \<noteq> []" and "hd us = 60" and "60 \<notin> set (tl p)"
  shows "x = []"
proof (cases x)
  case Nil
  then show ?thesis .
next
  case (Cons a as)
  with assms(1) have "tl p = as @ us" by simp
  moreover from assms(2,3) have "60 \<in> set us" by (cases us) auto
  ultimately have "60 \<in> set (tl p)" by simp
  with assms(4) show ?thesis by simp
qed

lemma prefix_tag_append:
  assumes "prefix p (x @ 60 # t)" and "60 \<notin> set (tl p)" and "x \<noteq> []"
  shows "prefix p x"
proof -
  from assms(1) consider "prefix p x" | us where "p = x @ us" "prefix us (60 # t)"
    by (auto simp: prefix_append)
  then show ?thesis
  proof cases
    case 1
    then show ?thesis .
  next
    case 2
    show ?thesis
    proof (cases us)
      case Nil
      with 2 show ?thesis by simp
    next
      case (Cons u us')
      with 2 have "hd us = 60" by simp
      with 2 Cons assms(2) have "x = []" by (intro tag_split[of p x us]) auto
      with assms(3) show ?thesis by simp
    qed
  qed
qed

lemma occurs_prefix: "prefix p s \<Longrightarrow> occurs p s"
  by (cases s) auto


lemma occurs_drop: "occurs p (drop n s) \<Longrightarrow> occurs p s"
proof (induction s arbitrary: n)
  case Nil
  then show ?case by simp
next
  case (Cons c cs)
  show ?case
  proof (cases n)
    case 0
    with Cons.prems show ?thesis by simp
  next
    case (Suc m)
    with Cons.prems have "occurs p (drop m cs)" by simp
    then have "occurs p cs" by (rule Cons.IH)
    then show ?thesis by simp
  qed
qed

lemma occurs_append_right: "occurs p t \<Longrightarrow> occurs p (a @ t)"
  using occurs_drop[of p "length a" "a @ t"] by simp




lemma prefix_open_before_open:
  "prefix open_tag ((c # cs) @ open_tag @ b) = prefix open_tag (c # cs)"
proof
  assume "prefix open_tag ((c # cs) @ open_tag @ b)"
  then have "prefix open_tag ((c # cs) @ 60 # (tl open_tag @ b))"
    by (simp add: tag_defs)
  then show "prefix open_tag (c # cs)"
    using lt_notin_tl_open by (rule prefix_tag_append) simp
next
  assume "prefix open_tag (c # cs)"
  then show "prefix open_tag ((c # cs) @ open_tag @ b)"
    using prefix_prefix by blast
qed




lemma find_close_first:
  assumes "\<not> occurs close_tag b"
  shows "find_close (b @ close_tag @ c) = Some c"
  using assms
proof (induction b)
  case Nil
  then show ?case by (simp add: tag_defs)
next
  case (Cons x xs)
  have "\<not> prefix close_tag ((x # xs) @ close_tag @ c)"
  proof
    assume "prefix close_tag ((x # xs) @ close_tag @ c)"
    then have "prefix close_tag ((x # xs) @ 60 # (tl close_tag @ c))"
      by (simp add: tag_defs)
    then have "prefix close_tag (x # xs)"
      using lt_notin_tl_close by (rule prefix_tag_append) simp
    with Cons.prems show False by simp
  qed
  then have "find_close ((x # xs) @ close_tag @ c) = find_close (xs @ close_tag @ c)"
    by simp
  moreover from Cons.prems have "\<not> occurs close_tag xs" by simp
  ultimately show ?case using Cons.IH by simp
qed

lemma strip_think_open:
  "strip_think (open_tag @ s) =
     (case find_close s of Some r \<Rightarrow> strip_think r | None \<Rightarrow> 60 # strip_think (tl open_tag @ s))"
  by (simp add: tag_defs split: option.split)

text \<open>The first span of a text: from the first opening marker to the first closing marker
  behind it.\<close>

lemma strip_think_first_span:
  assumes "\<not> occurs open_tag a" and "\<not> occurs close_tag b"
  shows "strip_think (a @ open_tag @ b @ close_tag @ c) = a @ strip_think c"
  using assms(1)
proof (induction a)
  case Nil
  from assms(2) have "find_close (b @ close_tag @ c) = Some c" by (rule find_close_first)
  then show ?case by (simp add: strip_think_open)
next
  case (Cons x xs)
  from Cons.prems have "\<not> prefix open_tag (x # xs)" by simp
  then have "\<not> prefix open_tag ((x # xs) @ open_tag @ (b @ close_tag @ c))"
    using prefix_open_before_open by blast
  then have "strip_think ((x # xs) @ open_tag @ b @ close_tag @ c)
      = x # strip_think (xs @ open_tag @ b @ close_tag @ c)"
    by simp
  moreover from Cons.prems have "\<not> occurs open_tag xs" by simp
  ultimately show ?case using Cons.IH by simp
qed

lemma strip_think_no_span: "\<not> has_span s \<Longrightarrow> strip_think s = s"
  by (induction s) auto

lemma length_strip_think: "length (strip_think s) \<le> length s"
proof (induction s rule: strip_think.induct)
  case 1
  show ?case by simp
next
  case (2 c cs)
  show ?case
  proof (cases "prefix open_tag (c # cs)")
    case False
    with "2.IH" show ?thesis by auto
  next
    case True
    show ?thesis
    proof (cases "find_close (drop (length open_tag) (c # cs))")
      case None
      with True "2.IH" show ?thesis by auto
    next
      case (Some rest)
      with True "2.IH" have "length (strip_think rest) \<le> length rest" by auto
      moreover from Some have "length rest < length (drop (length open_tag) (c # cs))"
        by (rule find_close_shorter)
      ultimately show ?thesis using True Some by simp
    qed
  qed
qed

lemma strip_think_span_shorter: "has_span s \<Longrightarrow> length (strip_think s) < length s"
proof (induction s)
  case Nil
  then show ?case by simp
next
  case (Cons c cs)
  show ?case
  proof (cases "prefix open_tag (c # cs)")
    case False
    with Cons show ?thesis by auto
  next
    case True
    show ?thesis
    proof (cases "find_close (drop (length open_tag) (c # cs))")
      case None
      with True Cons show ?thesis by auto
    next
      case (Some rest)
      have "length (strip_think rest) \<le> length rest" by (rule length_strip_think)
      moreover from Some have "length rest < length (drop (length open_tag) (c # cs))"
        by (rule find_close_shorter)
      ultimately show ?thesis using True Some by simp
    qed
  qed
qed

subsection \<open>strip\<close>

lemma last_dropWhile: "dropWhile P xs \<noteq> [] \<Longrightarrow> last (dropWhile P xs) = last xs"
proof -
  assume ne: "dropWhile P xs \<noteq> []"
  have "last (takeWhile P xs @ dropWhile P xs) = last (dropWhile P xs)"
    using ne by (rule last_appendR)
  then show ?thesis by simp
qed

lemma strip_ends:
  "strip s = [] \<or> (\<not> is_space (hd (strip s)) \<and> \<not> is_space (last (strip s)))"
proof (cases "strip s = []")
  case True
  then show ?thesis by simp
next
  case False
  define t where "t = dropWhile is_space s"
  define u where "u = dropWhile is_space (rev t)"
  have su: "strip s = rev u" by (simp add: strip_def t_def u_def)
  with False have u: "u \<noteq> []" by simp
  then have "\<not> is_space (hd u)" unfolding u_def by (rule hd_dropWhile)
  then have l: "\<not> is_space (last (strip s))" using su u by (simp add: last_rev)
  from u have rt: "rev t \<noteq> []" unfolding u_def by auto
  then have t: "t \<noteq> []" by simp
  then have "\<not> is_space (hd t)" unfolding t_def by (rule hd_dropWhile)
  moreover have "last u = last (rev t)" using u unfolding u_def by (rule last_dropWhile)
  ultimately have "\<not> is_space (hd (strip s))" using su u t by (simp add: hd_rev last_rev)
  with l show ?thesis by simp
qed

lemma strip_fixed: "s = [] \<or> (\<not> is_space (hd s) \<and> \<not> is_space (last s)) \<Longrightarrow> strip s = s"
proof (cases "s = []")
  case True
  then show ?thesis by (simp add: strip_def)
next
  case False
  assume "s = [] \<or> (\<not> is_space (hd s) \<and> \<not> is_space (last s))"
  with False have h: "\<not> is_space (hd s)" and l: "\<not> is_space (last s)" by auto
  from h False have "dropWhile is_space s = s" by (cases s) auto
  moreover from l False have "dropWhile is_space (rev s) = rev s"
    by (cases "rev s") (auto simp: last_rev[symmetric] hd_rev)
  ultimately show ?thesis by (simp add: strip_def)
qed

lemma strip_idem: "strip (strip s) = strip s"
  using strip_ends by (rule strip_fixed)

lemma length_strip: "length (strip s) \<le> length s"
proof -
  have "length (strip s) \<le> length (rev (dropWhile is_space s))"
    using length_dropWhile_le[of is_space "rev (dropWhile is_space s)"]
    by (simp add: strip_def)
  also have "\<dots> \<le> length s"
    using length_dropWhile_le[of is_space s] by simp
  finally show ?thesis .
qed

lemma strip_decomp:
  "s = takeWhile is_space s @ strip s @ rev (takeWhile is_space (rev (dropWhile is_space s)))"
proof -
  define t where "t = dropWhile is_space s"
  have "rev (takeWhile is_space (rev t) @ dropWhile is_space (rev t)) = rev (rev t)"
    by (simp only: takeWhile_dropWhile_id)
  then have "rev (dropWhile is_space (rev t)) @ rev (takeWhile is_space (rev t)) = t"
    by (simp only: rev_append rev_rev_ident)
  then have "strip s @ rev (takeWhile is_space (rev t)) = t"
    by (simp only: strip_def t_def)
  moreover have "takeWhile is_space s @ t = s"
    by (simp only: t_def takeWhile_dropWhile_id)
  ultimately show ?thesis unfolding t_def by simp
qed

lemmas clean_eval = get_clean_response_def strip_def is_space_def open_tag_def close_tag_def str_def




text \<open>
  Claim C3, as the code has it. The scan removes the span that starts at the first opening
  marker and ends at the first closing marker behind it (whatever lies between them,
  whitespace and line breaks included), and goes on in the same way with the text behind that
  span; the result is then trimmed: it neither starts nor ends with whitespace, and only
  whitespace is cut off at the two ends. Markers are not balanced: a nested opening marker is
  part of the removed text and the first closing marker ends the span. For the single
  well-formed span of the specification the result is \<open>ab\<close>.
\<close>

theorem clean_first_span:
  assumes "\<not> occurs open_tag a" and "\<not> occurs close_tag b"
  shows "get_clean_response (a @ open_tag @ b @ close_tag @ c) = strip (a @ strip_think c)
    \<and> (get_clean_response x = []
        \<or> (\<not> is_space (hd (get_clean_response x)) \<and> \<not> is_space (last (get_clean_response x))))
    \<and> (\<exists>l r. strip_think x = l @ get_clean_response x @ r \<and> (\<forall>ch\<in>set l \<union> set r. is_space ch))
    \<and> get_clean_response (str ''a<think>secret</think>b'') = str ''ab''"
proof -
  have 1: "get_clean_response (a @ open_tag @ b @ close_tag @ c) = strip (a @ strip_think c)"
    using assms by (simp add: get_clean_response_def strip_think_first_span)
  have 2: "get_clean_response x = []
        \<or> (\<not> is_space (hd (get_clean_response x)) \<and> \<not> is_space (last (get_clean_response x)))"
    unfolding get_clean_response_def by (rule strip_ends)
  define l where "l = takeWhile is_space (strip_think x)"
  define r where "r = rev (takeWhile is_space (rev (dropWhile is_space (strip_think x))))"
  have "strip_think x = l @ get_clean_response x @ r"
    unfolding l_def r_def get_clean_response_def by (rule strip_decomp)
  moreover have "\<forall>ch\<in>set l \<union> set r. is_space ch"
    unfolding l_def r_def by (auto dest: set_takeWhileD)
  ultimately have 3: "\<exists>l r. strip_think x = l @ get_clean_response x @ r
      \<and> (\<forall>ch\<in>set l \<union> set r. is_space ch)"
    by blast
  have 4: "get_clean_response (str ''a<think>secret</think>b'') = str ''ab''"
    by (simp add: clean_eval)
  from 1 2 3 4 show ?thesis by blast
qed

text \<open>
  Claim C3, witness: the text \<^verbatim>\<open>a<think>secret</think>b\<close>, split at its markers.
\<close>

theorem clean_first_span_witness:
  "\<not> occurs open_tag (str ''a'') \<and> \<not> occurs close_tag (str ''secret'')
   \<and> get_clean_response (str ''a'' @ open_tag @ str ''secret'' @ close_tag @ str ''b'')
       = strip (str ''a'' @ strip_think (str ''b''))
   \<and> strip (str ''a'' @ strip_think (str ''b'')) = str ''ab''"
proof -
  have a: "\<not> occurs open_tag (str ''a'')" by (simp add: clean_eval)
  have b: "\<not> occurs close_tag (str ''secret'')" by (simp add: clean_eval)
  have "strip (str ''a'' @ strip_think (str ''b'')) = str ''ab''" by (simp add: clean_eval)
  with a b clean_first_span[OF a b, of "str ''b''" "[]"] show ?thesis by blast
qed

text \<open>
  Claim C3, counterexample to the removal of nested spans: in
  \<^verbatim>\<open><think>a<think>b</think>c</think>\<close> the span ends at the first closing marker, and
  \<^verbatim>\<open>c</think>\<close>, which lies inside the outer pair of markers, stays.
\<close>

theorem clean_nested_counterexample:
  "get_clean_response (str ''<think>a<think>b</think>c</think>'') = str ''c</think>''
   \<and> get_clean_response (str ''<think>a<think>b</think>c</think>'') \<noteq> []"
  by (simp add: clean_eval)



text \<open>
  Whitespace directly in front of an unterminated marker stays: \<^verbatim>\<open>x <think>\<close> is returned
  as it is.
\<close>

lemma clean_keeps_space_before_marker:
  "get_clean_response (str ''x <think>'') = str ''x <think>''"
  by (simp add: clean_eval)


text \<open>A cleaned text is returned by a second cleaning exactly when it holds no span.\<close>

lemma clean_fixed_iff_no_span:
  "(get_clean_response (get_clean_response x) = get_clean_response x)
    = (\<not> has_span (get_clean_response x))"
proof
  assume idem: "get_clean_response (get_clean_response x) = get_clean_response x"
  show "\<not> has_span (get_clean_response x)"
  proof
    assume "has_span (get_clean_response x)"
    then have "length (strip_think (get_clean_response x)) < length (get_clean_response x)"
      by (rule strip_think_span_shorter)
    moreover have "length (get_clean_response (get_clean_response x))
        \<le> length (strip_think (get_clean_response x))"
      unfolding get_clean_response_def[of "strip (strip_think x)"] get_clean_response_def[symmetric]
      by (simp add: get_clean_response_def length_strip)
    ultimately show False using idem by simp
  qed
next
  assume "\<not> has_span (get_clean_response x)"
  then have "strip_think (get_clean_response x) = get_clean_response x"
    by (rule strip_think_no_span)
  then show "get_clean_response (get_clean_response x) = get_clean_response x"
    by (simp add: get_clean_response_def strip_idem)
qed















section \<open>Properties of a chat turn\<close>

lemma history_add_message:
  "conversation_history (add_message a r c) = conversation_history a @ [\<lparr>role = r, content = c\<rparr>]"
  by (simp add: add_message_def)

lemma name_add_message: "name (add_message a r c) = name a"
  by (simp add: add_message_def)








lemma stream_chat_failure:
  assumes "stream_chat_request (add_message a (str ''user'') msg) cs = Inr req"
    and "rt req = Raises e \<or> rt req = Stream chunks (Some e)"
  shows "\<exists>out. stream_chat rt a msg cs =
          (add_message a (str ''user'') msg,
           out @ [OutError (str ''Error from '' @ name a @ str '': '') e])"
  using assms
  by (auto simp: stream_chat_def stream_chat_try_def Let_def name_add_message)

lemma stream_chat_bad_settings:
  assumes "stream_chat_request (add_message a (str ''user'') msg) cs = Inl e"
  shows "\<exists>out. stream_chat rt a msg cs =
          (add_message a (str ''user'') msg,
           out @ [OutError (str ''Error from '' @ name a @ str '': '') e])"
  using assms
  by (auto simp: stream_chat_def stream_chat_try_def Let_def name_add_message)

section \<open>Properties of the configuration and the start\<close>

lemma setup_agents_no_models:
  assumes "map_of d (str ''models'') = None"
  shows "setup_agents ollama_create (YDict d) = Inl (KeyError (str ''models''))"
  using assms by (simp add: setup_agents_def)

lemma load_config_fails: "fst (load_config (ReadFails e)) = YDict []"
  by (simp add: load_config_def)

section \<open>Properties of the dispatch\<close>

lemma map_fst_map_entry: "map fst (AList.map_entry k f al) = map fst al"
  by (induction al) auto

lemma map_update_same: "(map f xs)[i := f (xs ! i)] = map f xs"
  by (metis list_update_id map_update)

lemmas upd_defs = emit_def set_tpc_def update_agent_def fail_def

lemmas worker_splits = if_splits option.splits task_pc.splits sum.splits reply.splits list.splits

lemma worker_step_mpc: "worker_step rt i st = Some st' \<Longrightarrow> mpc st' = mpc st"
  by (auto simp: worker_step_def upd_defs split: worker_splits)

lemma worker_step_args:
  "worker_step rt i st = Some st' \<Longrightarrow>
     user_message st' = user_message st \<and> batch_settings st' = batch_settings st"
  by (auto simp: worker_step_def upd_defs split: worker_splits)

lemma worker_step_keys:
  "worker_step rt i st = Some st' \<Longrightarrow> map agent_key (futures st') = map agent_key (futures st)"
  by (auto simp: worker_step_def upd_defs map_update map_update_same split: worker_splits)

lemma worker_step_length:
  "worker_step rt i st = Some st' \<Longrightarrow> length (futures st') = length (futures st)"
  by (auto simp: worker_step_def upd_defs split: worker_splits)

lemma worker_step_others:
  "worker_step rt i st = Some st' \<Longrightarrow> j \<noteq> i \<Longrightarrow> futures st' ! j = futures st ! j"
  by (auto simp: worker_step_def upd_defs split: worker_splits)

lemma worker_step_enabled:
  "worker_step rt i st = Some st' \<Longrightarrow> i < length (futures st) \<and> tpc (futures st ! i) \<noteq> Done"
  by (auto simp: worker_step_def upd_defs split: worker_splits)

lemma worker_step_registry_keys:
  "worker_step rt i st = Some st' \<Longrightarrow> map fst (registry st') = map fst (registry st)"
  by (auto simp: worker_step_def upd_defs map_fst_map_entry split: worker_splits)

lemma worker_step_main_printed:
  "worker_step rt i st = Some st' \<Longrightarrow>
     filter (\<lambda>p. fst p = MainThread) (printed st') = filter (\<lambda>p. fst p = MainThread) (printed st)"
  by (auto simp: worker_step_def upd_defs split: worker_splits)

lemma worker_step_other_agents:
  "worker_step rt i st = Some st' \<Longrightarrow> k \<noteq> agent_key (futures st ! i) \<Longrightarrow>
     map_of (registry st') k = map_of (registry st) k"
  by (auto simp: worker_step_def upd_defs map_of_map_entry split: worker_splits)

lemma worker_step_stream_error:
  assumes "i < length (futures st)"
    and "map_of (registry st) (agent_key (futures st ! i)) = Some self"
    and "tpc (futures st ! i) = L49 [] (Some e) full_response"
  shows "worker_step rt i st = Some (fail i self e st)"
  using assms by (simp add: worker_step_def)

lemma worker_step_call_error:
  assumes "i < length (futures st)"
    and "map_of (registry st) (agent_key (futures st ! i)) = Some self"
    and "tpc (futures st ! i) = L40"
    and "stream_chat_request self (batch_settings st) = Inr req"
    and "rt i req = Raises e"
  shows "worker_step rt i st = Some (fail i self e st)"
  using assms by (simp add: worker_step_def)

lemma fail_effect:
  "registry (fail i self e st) = registry st \<and> mpc (fail i self e st) = mpc st
   \<and> printed (fail i self e st) =
       printed st @ [(WorkerThread i, OutError (str ''Error from '' @ name self @ str '': '') e)]
   \<and> (i < length (futures st) \<longrightarrow> tpc (futures (fail i self e st) ! i) = Done)"
  by (simp add: upd_defs)

text \<open>
  Claim C5. When the call of the runtime raises, or the stream ends with an exception, the
  chat turn returns normally: its last output is the line \<^verbatim>\<open>Error from <name>: <error>\<close>
  with the name of the agent, and the history has grown by the user turn alone, without an
  assistant turn. In the dispatch this is the step \<open>fail\<close> of the work item: it prints the
  error under the agent's name, leaves the registry and the main thread as they are and ends
  the work item, so that its future has a result. No step of a work item changes another
  agent or another work item.
\<close>

theorem failed_call_keeps_user_turn:
  assumes "stream_chat_request (add_message a (str ''user'') msg) cs = Inr req"
    and "rt req = Raises e \<or> rt req = Stream chunks (Some e)"
  shows "(\<exists>out. stream_chat rt a msg cs =
            (add_message a (str ''user'') msg,
             out @ [OutError (str ''Error from '' @ name a @ str '': '') e]))
    \<and> conversation_history (fst (stream_chat rt a msg cs)) =
         conversation_history a @ [\<lparr>role = str ''user'', content = msg\<rparr>]
    \<and> (i < length (futures st)
         \<and> map_of (registry st) (agent_key (futures st ! i)) = Some self
         \<and> (tpc (futures st ! i) = L49 [] (Some e) full_response
             \<or> tpc (futures st ! i) = L40
                \<and> stream_chat_request self (batch_settings st) = Inr req' \<and> rts i req' = Raises e)
        \<longrightarrow> worker_step rts i st = Some (fail i self e st)
            \<and> registry (fail i self e st) = registry st
            \<and> mpc (fail i self e st) = mpc st
            \<and> tpc (futures (fail i self e st) ! i) = Done
            \<and> printed (fail i self e st) =
                printed st
                  @ [(WorkerThread i, OutError (str ''Error from '' @ name self @ str '': '') e)])
    \<and> (worker_step rts i st = Some st' \<longrightarrow>
         (\<forall>k. k \<noteq> agent_key (futures st ! i) \<longrightarrow> map_of (registry st') k = map_of (registry st) k)
         \<and> (\<forall>j. j \<noteq> i \<longrightarrow> futures st' ! j = futures st ! j))"
proof -
  from assms obtain out where out: "stream_chat rt a msg cs =
      (add_message a (str ''user'') msg,
       out @ [OutError (str ''Error from '' @ name a @ str '': '') e])"
    using stream_chat_failure by blast
  then have 1: "\<exists>out. stream_chat rt a msg cs =
      (add_message a (str ''user'') msg,
       out @ [OutError (str ''Error from '' @ name a @ str '': '') e])"
    by blast
  from out have 2: "conversation_history (fst (stream_chat rt a msg cs)) =
      conversation_history a @ [\<lparr>role = str ''user'', content = msg\<rparr>]"
    by (simp add: history_add_message)
  have 3: "i < length (futures st)
         \<and> map_of (registry st) (agent_key (futures st ! i)) = Some self
         \<and> (tpc (futures st ! i) = L49 [] (Some e) full_response
             \<or> tpc (futures st ! i) = L40
                \<and> stream_chat_request self (batch_settings st) = Inr req' \<and> rts i req' = Raises e)
        \<longrightarrow> worker_step rts i st = Some (fail i self e st)
            \<and> registry (fail i self e st) = registry st
            \<and> mpc (fail i self e st) = mpc st
            \<and> tpc (futures (fail i self e st) ! i) = Done
            \<and> printed (fail i self e st) =
                printed st
                  @ [(WorkerThread i, OutError (str ''Error from '' @ name self @ str '': '') e)]"
    using worker_step_stream_error[of i st self e full_response rts]
      worker_step_call_error[of i st self req' rts e] fail_effect[of i self e st]
    by blast
  have 4: "worker_step rts i st = Some st' \<longrightarrow>
         (\<forall>k. k \<noteq> agent_key (futures st ! i) \<longrightarrow> map_of (registry st') k = map_of (registry st) k)
         \<and> (\<forall>j. j \<noteq> i \<longrightarrow> futures st' ! j = futures st ! j)"
    using worker_step_other_agents worker_step_others by blast
  from 1 2 3 4 show ?thesis by blast
qed

text \<open>
  Claim C10. When the configuration has no key \<^verbatim>\<open>models\<close>, \<^verbatim>\<open>setup_agents\<close> raises
  \<^verbatim>\<open>KeyError('models')\<close>, the constructor passes it on and nothing in \<^verbatim>\<open>main\<close> catches
  it. The empty dictionary that \<^verbatim>\<open>load_config\<close> returns for a missing or malformed file is
  such a configuration, so the start ends with the uncaught exception and not with
  \<^verbatim>\<open>sys.exit(1)\<close>.
\<close>

theorem missing_models_key_is_uncaught:
  assumes "map_of d (str ''models'') = None"
  shows "setup_agents ollama_create (YDict d) = Inl (KeyError (str ''models''))
    \<and> snd (MultiAgentChat_init (Parsed (YDict d)) ollama_create) = Inl (KeyError (str ''models''))
    \<and> snd (main_startup (Parsed (YDict d)) ollama_create) = Uncaught (KeyError (str ''models''))
    \<and> load_config (ReadFails e) = (YDict [], [OutError (str ''Error loading config: '') e])
    \<and> snd (main_startup (ReadFails e) ollama_create) = Uncaught (KeyError (str ''models''))
    \<and> snd (main_startup (ReadFails e) ollama_create) \<noteq> SysExit 1"
proof -
  have s: "setup_agents ollama_create (YDict d) = Inl (KeyError (str ''models''))"
    using assms by (rule setup_agents_no_models)
  have s0: "setup_agents ollama_create (YDict []) = Inl (KeyError (str ''models''))"
    by (rule setup_agents_no_models) simp
  have l: "load_config (ReadFails e) = (YDict [], [OutError (str ''Error loading config: '') e])"
    by (simp add: load_config_def)
  have i: "snd (MultiAgentChat_init (Parsed (YDict d)) ollama_create)
      = Inl (KeyError (str ''models''))"
    by (simp add: MultiAgentChat_init_def load_config_def s)
  have m: "snd (main_startup (Parsed (YDict d)) ollama_create) = Uncaught (KeyError (str ''models''))"
    by (simp add: main_startup_def MultiAgentChat_init_def load_config_def s)
  have m0: "snd (main_startup (ReadFails e) ollama_create) = Uncaught (KeyError (str ''models''))"
    by (simp add: main_startup_def MultiAgentChat_init_def l s0)
  from s i m l m0 show ?thesis by simp
qed

text \<open>
  Claim C10, witness: the empty configuration, parsed or returned for an unreadable file.
\<close>

theorem missing_models_key_is_uncaught_witness:
  "map_of ([] :: (pystr \<times> yaml) list) (str ''models'') = None
   \<and> snd (main_startup (Parsed (YDict [])) (\<lambda>c b s. None)) = Uncaught (KeyError (str ''models''))
   \<and> snd (main_startup (ReadFails (Raised (str ''No such file''))) (\<lambda>c b s. None))
       = Uncaught (KeyError (str ''models''))"
proof -
  have h: "map_of ([] :: (pystr \<times> yaml) list) (str ''models'') = None" by simp
  from missing_models_key_is_uncaught[OF h, of "\<lambda>c b s. None" "Raised (str ''No such file'')"]
  show ?thesis using h by blast
qed

text \<open>
  Claim C8, as the code has it. \<^verbatim>\<open>chat_with_model\<close> passes \<^verbatim>\<open>stream\<close> from the settings to
  the runtime, and \<^verbatim>\<open>True\<close> when the settings have no such key. \<^verbatim>\<open>Agent.stream_chat\<close>
  always asks for a stream: its request has \<^verbatim>\<open>stream=True\<close> whatever the settings say, and
  two settings with the same temperature give the same chat turn.
\<close>

theorem stream_flag_of_requests:
  "chat_with_model_request m msg (YDict d) =
     Inr \<lparr>model = m, messages = [\<lparr>role = str ''user'', content = msg\<rparr>],
          stream = (case map_of d (str ''stream'') of None \<Rightarrow> YBool True | Some v \<Rightarrow> v),
          temperature =
            (case map_of d (str ''temperature'') of None \<Rightarrow> default_temperature | Some v \<Rightarrow> v)\<rparr>
   \<and> stream_chat_request a (YDict d) =
     Inr \<lparr>model = model_name a, messages = conversation_history a, stream = YBool True,
          temperature =
            (case map_of d (str ''temperature'') of None \<Rightarrow> default_temperature | Some v \<Rightarrow> v)\<rparr>
   \<and> (map_of d (str ''temperature'') = map_of d' (str ''temperature'') \<longrightarrow>
        stream_chat rt a msg (YDict d) = stream_chat rt a msg (YDict d'))"
  by (simp add: chat_with_model_request_def stream_chat_request_def stream_chat_def
        stream_chat_try_def)

text \<open>
  Claim C8, witness: a chat turn with \<^verbatim>\<open>stream: false\<close> is the chat turn with empty settings.
\<close>

theorem stream_flag_of_requests_witness:
  "map_of [(str ''stream'', YBool False)] (str ''temperature'')
     = map_of ([] :: (pystr \<times> yaml) list) (str ''temperature'')
   \<and> stream_chat (\<lambda>r. Stream [] None) (Agent_init (str ''X'') YNone YNone) (str ''hi'')
        (YDict [(str ''stream'', YBool False)])
     = stream_chat (\<lambda>r. Stream [] None) (Agent_init (str ''X'') YNone YNone) (str ''hi'') (YDict [])"
proof -
  have h: "map_of [(str ''stream'', YBool False)] (str ''temperature'')
     = map_of ([] :: (pystr \<times> yaml) list) (str ''temperature'')"
    by (simp add: str_def)
  from stream_flag_of_requests[where d = "[(str ''stream'', YBool False)]" and d' = "[]"
      and a = "Agent_init (str ''X'') YNone YNone" and rt = "\<lambda>r. Stream [] None"
      and msg = "str ''hi''" and m = YNone]
  show ?thesis using h by blast
qed

text \<open>
  Claim C8, counterexample: with the settings \<^verbatim>\<open>{stream: false}\<close> the request of
  \<^verbatim>\<open>Agent.stream_chat\<close> has \<^verbatim>\<open>stream=True\<close>.
\<close>

theorem stream_chat_ignores_stream_flag_counterexample:
  "map_sum id stream
     (stream_chat_request (Agent_init (str ''X'') (YStr (str ''m'')) (YStr (str ''p'')))
        (YDict [(str ''stream'', YBool False)]))
   = Inr (YBool True)"
  by (simp add: stream_chat_request_def)

section \<open>Invariants of the dispatch\<close>

lemma example_start_init:
  "chat_with_agents_init example_chat (str ''hi'') agent_names = Inr (example_start agent_names)"
  by (simp add: chat_with_agents_init_def example_chat_def example_start_def)

lemmas example_defs = example_start_def example_agent_def Agent_init_def answering_runtime_def
  failing_runtime_def

lemmas step_eval = step_def main_step_def worker_step_def upd_defs running_def max_workers_def
  stream_chat_request_def default_temperature_def add_message_def

text \<open>One complete turn of \<open>X\<close>, with the unknown name \<open>ghost\<close> in the batch.\<close>

lemma example_run:
  "map_option (\<lambda>st. (mpc st, map tpc (futures st), map agent_key (futures st)))
     (run (\<lambda>i. answering_runtime) (example_start [str ''X'', str ''ghost''])
        [Main, Main, Main, Worker 0, Worker 0, Worker 0, Worker 0, Worker 0, Worker 0,
         Worker 0, Worker 0, Main, Main])
   = Some (Returned, [Done], [str ''X''])"
  by (simp add: example_defs step_eval str_def)

lemmas main_splits = main_pc.splits list.splits if_splits

lemma main_step_registry: "main_step st = Some st' \<Longrightarrow> registry st' = registry st"
  by (auto simp: main_step_def emit_def split: main_splits)

lemma registered_keys: "map fst reg' = map fst reg \<Longrightarrow> registered reg' = registered reg"
proof
  fix k
  assume "map fst reg' = map fst reg"
  then have "set (map fst reg') = set (map fst reg)" by simp
  then have "(k \<in> fst ` set reg') = (k \<in> fst ` set reg)" by simp
  then show "registered reg' k = registered reg k"
    by (simp add: registered_def map_of_eq_None_iff)
qed

lemma worker_step_registered:
  "worker_step rt i st = Some st' \<Longrightarrow> registered (registry st') = registered (registry st)"
  by (rule registered_keys) (rule worker_step_registry_keys)

lemma worker_step_accounted:
  assumes "worker_step rt i st = Some st'" and "accounted agent_names st"
  shows "accounted agent_names st'"
proof -
  have "pending st' = pending st"
    using assms(1) by (simp add: pending_def worker_step_mpc)
  moreover have "main_printed st' = main_printed st"
    using assms(1) by (simp add: main_printed_def worker_step_main_printed)
  moreover have "map agent_key (futures st') = map agent_key (futures st)"
    using assms(1) by (rule worker_step_keys)
  moreover have "registered (registry st') = registered (registry st)"
    using assms(1) by (rule worker_step_registered)
  ultimately show ?thesis using assms(2) by (simp add: accounted_def)
qed

lemma main_step_accounted:
  assumes "main_step st = Some st'" and "accounted agent_names st"
  shows "accounted agent_names st'"
  using assms
  by (auto simp: main_step_def emit_def accounted_def pending_def main_printed_def
        registered_def not_found_line_def split: main_splits)

lemma worker_step_joined:
  assumes "worker_step rt i st = Some st'" and "joined st"
  shows "joined st'"
proof -
  have len: "length (futures st') = length (futures st)"
    using assms(1) by (rule worker_step_length)
  have i: "i < length (futures st)" "tpc (futures st ! i) \<noteq> Done"
    using assms(1) worker_step_enabled by blast+
  have keep: "tpc (futures st' ! j) = Done" if "j < length (futures st)" "tpc (futures st ! j) = Done" for j
  proof -
    from that i have "j \<noteq> i" by auto
    with assms(1) have "futures st' ! j = futures st ! j" by (rule worker_step_others)
    with that show ?thesis by simp
  qed
  have m: "mpc st' = mpc st" using assms(1) by (rule worker_step_mpc)
  show ?thesis
  proof (cases "mpc st")
    case (L121 rest)
    with m show ?thesis by (simp add: joined_def)
  next
    case (L130 k)
    with assms(2) have k: "k \<le> length (futures st)"
      and d: "\<forall>j<k. tpc (futures st ! j) = Done"
      by (auto simp: joined_def list_all_length)
    from k d keep have "\<forall>j<k. tpc (futures st' ! j) = Done" by auto
    with k len m L130 show ?thesis by (simp add: joined_def list_all_length)
  next
    case Returned
    with assms(2) have "\<forall>j<length (futures st). tpc (futures st ! j) = Done"
      by (simp add: joined_def list_all_length)
    with i show ?thesis by blast
  qed
qed

lemma main_step_joined:
  assumes "main_step st = Some st'" and "joined st"
  shows "joined st'"
  using assms
  by (auto simp: main_step_def emit_def joined_def list_all_length less_Suc_eq
        split: main_splits)

lemma step_accounted:
  "step rt st a = Some st' \<Longrightarrow> accounted agent_names st \<Longrightarrow> accounted agent_names st'"
  by (cases a) (auto simp: step_def intro: main_step_accounted worker_step_accounted)

lemma step_joined: "step rt st a = Some st' \<Longrightarrow> joined st \<Longrightarrow> joined st'"
  by (cases a) (auto simp: step_def intro: main_step_joined worker_step_joined)

lemma step_registered:
  "step rt st a = Some st' \<Longrightarrow> registered (registry st') = registered (registry st)"
  by (cases a) (auto simp: step_def main_step_registry worker_step_registered)

lemma run_accounted:
  "run rt st sched = Some st' \<Longrightarrow> accounted agent_names st \<Longrightarrow> accounted agent_names st'"
proof (induction sched arbitrary: st)
  case Nil
  then show ?case by simp
next
  case (Cons a sched)
  from Cons.prems(1) obtain st1 where s: "step rt st a = Some st1" and r: "run rt st1 sched = Some st'"
    by (auto split: option.splits)
  from s Cons.prems(2) have "accounted agent_names st1" by (rule step_accounted)
  with r show ?case by (rule Cons.IH)
qed

lemma run_joined: "run rt st sched = Some st' \<Longrightarrow> joined st \<Longrightarrow> joined st'"
proof (induction sched arbitrary: st)
  case Nil
  then show ?case by simp
next
  case (Cons a sched)
  from Cons.prems(1) obtain st1 where s: "step rt st a = Some st1" and r: "run rt st1 sched = Some st'"
    by (auto split: option.splits)
  from s Cons.prems(2) have "joined st1" by (rule step_joined)
  with r show ?case by (rule Cons.IH)
qed

lemma run_registered:
  "run rt st sched = Some st' \<Longrightarrow> registered (registry st') = registered (registry st)"
proof (induction sched arbitrary: st)
  case Nil
  then show ?case by simp
next
  case (Cons a sched)
  from Cons.prems(1) obtain st1 where s: "step rt st a = Some st1" and r: "run rt st1 sched = Some st'"
    by (auto split: option.splits)
  from r have "registered (registry st') = registered (registry st1)" by (rule Cons.IH)
  also from s have "\<dots> = registered (registry st)" by (rule step_registered)
  finally show ?case .
qed

lemma init_state:
  assumes "chat_with_agents_init self msg agent_names = Inr st0"
  shows "registry st0 = agents self \<and> futures st0 = [] \<and> mpc st0 = L121 agent_names
    \<and> accounted agent_names st0 \<and> joined st0"
  using assms
  by (auto simp: chat_with_agents_init_def accounted_def joined_def pending_def main_printed_def
        split: sum.splits)

text \<open>What holds in every state that a schedule reaches from the start of a batch.\<close>

lemma reachable_accounted:
  assumes "chat_with_agents_init self msg agent_names = Inr st0"
    and "run rt st0 sched = Some st"
  shows "map agent_key (futures st) @ filter (registered (agents self)) (pending st)
           = filter (registered (agents self)) agent_names"
    and "main_printed st
           @ map not_found_line (filter (\<lambda>n. \<not> registered (agents self) n) (pending st))
           = Out ([10] @ str ''Responses:'' @ [10])
               # map not_found_line (filter (\<lambda>n. \<not> registered (agents self) n) agent_names)"
proof -
  from assms(1) have r0: "registry st0 = agents self" and a0: "accounted agent_names st0"
    using init_state by blast+
  from assms(2) a0 have a: "accounted agent_names st" by (rule run_accounted)
  from assms(2) have "registered (registry st) = registered (registry st0)"
    by (rule run_registered)
  with r0 have r: "registered (registry st) = registered (agents self)" by simp
  from a r show "map agent_key (futures st) @ filter (registered (agents self)) (pending st)
           = filter (registered (agents self)) agent_names"
    by (simp add: accounted_def)
  from a r show "main_printed st
           @ map not_found_line (filter (\<lambda>n. \<not> registered (agents self) n) (pending st))
           = Out ([10] @ str ''Responses:'' @ [10])
               # map not_found_line (filter (\<lambda>n. \<not> registered (agents self) n) agent_names)"
    by (simp add: accounted_def)
qed

lemma reachable_joined:
  assumes "chat_with_agents_init self msg agent_names = Inr st0"
    and "run rt st0 sched = Some st"
  shows "joined st"
proof -
  from assms(1) have "joined st0" using init_state by blast
  with assms(2) show ?thesis by (rule run_joined)
qed

lemma example_schedule_run:
  "map_option (\<lambda>st. (mpc st, map tpc (futures st), map agent_key (futures st), main_printed st))
     (run (\<lambda>i. answering_runtime) (example_start [str ''X'', str ''ghost'']) example_schedule)
   = Some (Returned, [Done], [str ''X''],
       [Out ([10] @ str ''Responses:'' @ [10]), not_found_line (str ''ghost'')])"
  by (simp add: example_schedule_def example_defs step_eval str_def main_printed_def
        not_found_line_def)




lemma count_agent_key:
  "length (filter (\<lambda>t. agent_key t = n) fs) = length (filter (\<lambda>k. k = n) (map agent_key fs))"
  by (induction fs) auto

lemma count_filter:
  "length (filter (\<lambda>k. k = n) (filter P xs)) = (if P n then length (filter (\<lambda>k. k = n) xs) else 0)"
  by (induction xs) auto

lemma distinct_count_le_1: "distinct xs \<Longrightarrow> length (filter (\<lambda>k. k = n) xs) \<le> 1"
proof (induction xs)
  case Nil
  show ?case by simp
next
  case (Cons x xs)
  show ?case
  proof (cases "x = n")
    case True
    with Cons.prems have "n \<notin> set xs" by simp
    then have "filter (\<lambda>k. k = n) xs = []" by (auto simp: filter_empty_conv)
    with True show ?thesis by simp
  next
    case False
    with Cons show ?thesis by simp
  qed
qed

text \<open>
  Under the example schedule the work item of \<open>X\<close> runs alone: it leaves the agent and the
  output that the function \<open>stream_chat\<close> computes for the same call.
\<close>

lemma example_turn_agrees:
  "map_option
     (\<lambda>st. (map_of (registry st) (str ''X''),
            map snd (filter (\<lambda>p. fst p = WorkerThread 0) (printed st))))
     (run (\<lambda>i. answering_runtime) (example_start [str ''X'', str ''ghost'']) example_schedule)
   = Some (Some (fst (stream_chat answering_runtime example_agent (str ''hi'') (YDict []))),
           snd (stream_chat answering_runtime example_agent (str ''hi'') (YDict [])))"
  by (simp add: example_schedule_def example_defs step_eval str_def stream_chat_def
        stream_chat_try_def Let_def)

text \<open>With no target names the call returns after two steps of the main thread.\<close>

lemma empty_batch_returns:
  "run rt (example_start []) [Main, Main] = Some ((example_start [])\<lparr>mpc := Returned\<rparr>)"
  by (simp add: example_start_def step_def main_step_def)

lemma example_schedule_state:
  obtains st where
    "run (\<lambda>i. answering_runtime) (example_start [str ''X'', str ''ghost'']) example_schedule = Some st"
    and "mpc st = Returned" and "map tpc (futures st) = [Done]"
    and "map agent_key (futures st) = [str ''X'']"
    and "main_printed st = [Out ([10] @ str ''Responses:'' @ [10]), not_found_line (str ''ghost'')]"
  using example_schedule_run by (auto simp: map_option_case split: option.splits)

lemma example_registered:
  "filter (registered (agents example_chat)) [str ''X'', str ''ghost''] = [str ''X'']"
  "filter (\<lambda>n. \<not> registered (agents example_chat) n) [str ''X'', str ''ghost''] = [str ''ghost'']"
  by (simp_all add: registered_def example_chat_def str_def)

text \<open>
  Claim C6. When \<^verbatim>\<open>chat_with_agents\<close> has returned, whatever the schedule was, every work
  item it submitted has returned from \<^verbatim>\<open>stream_chat\<close>, with an answer or with a printed
  error, and the work items are those of all registered target names: the main thread waits
  for each future of its list, and no future is left out of the list.
\<close>

theorem dispatch_returns_after_all_turns:
  assumes "chat_with_agents_init self msg agent_names = Inr st0"
    and "run rt st0 sched = Some st"
    and "mpc st = Returned"
  shows "(\<forall>t\<in>set (futures st). tpc t = Done)
    \<and> map agent_key (futures st) = filter (registered (agents self)) agent_names"
proof -
  from assms(1,2) have "joined st" by (rule reachable_joined)
  with assms(3) have "list_all (\<lambda>t. tpc t = Done) (futures st)" by (simp add: joined_def)
  then have 1: "\<forall>t\<in>set (futures st). tpc t = Done" by (simp add: list_all_iff)
  from assms(3) have "pending st = []" by (simp add: pending_def)
  with reachable_accounted(1)[OF assms(1,2)]
  have "map agent_key (futures st) = filter (registered (agents self)) agent_names" by simp
  with 1 show ?thesis by simp
qed

text \<open>
  Claim C6, witness: the batch \<open>X\<close>, \<open>ghost\<close> under the example schedule; the call returns
  with the one work item of \<open>X\<close> done.
\<close>

theorem dispatch_returns_after_all_turns_witness:
  "chat_with_agents_init example_chat (str ''hi'') [str ''X'', str ''ghost'']
     = Inr (example_start [str ''X'', str ''ghost''])
   \<and> map_option mpc
        (run (\<lambda>i. answering_runtime) (example_start [str ''X'', str ''ghost'']) example_schedule)
      = Some Returned
   \<and> map_option (\<lambda>st. list_all (\<lambda>t. tpc t = Done) (futures st))
        (run (\<lambda>i. answering_runtime) (example_start [str ''X'', str ''ghost'']) example_schedule)
      = Some True
   \<and> map_option (\<lambda>st. map agent_key (futures st))
        (run (\<lambda>i. answering_runtime) (example_start [str ''X'', str ''ghost'']) example_schedule)
      = Some [str ''X'']"
proof -
  obtain st where r: "run (\<lambda>i. answering_runtime) (example_start [str ''X'', str ''ghost''])
      example_schedule = Some st" and m: "mpc st = Returned"
    by (rule example_schedule_state)
  note i = example_start_init[of "[str ''X'', str ''ghost'']"]
  from dispatch_returns_after_all_turns[OF i r m]
  have a: "\<forall>t\<in>set (futures st). tpc t = Done"
    and b: "map agent_key (futures st)
        = filter (registered (agents example_chat)) [str ''X'', str ''ghost'']"
    by blast+
  from a have "list_all (\<lambda>t. tpc t = Done) (futures st)" by (simp add: list_all_iff)
  moreover from b have "map agent_key (futures st) = [str ''X'']"
    by (simp only: example_registered)
  ultimately show ?thesis using i r m by simp
qed

text \<open>
  Claim C7, as the code has it. In every state that a schedule reaches, the work items
  submitted so far are the registered names among the target names gone through, one work
  item for each occurrence and in the order of the list, and the main thread has printed the
  heading and one line \<^verbatim>\<open>Agent not found\<close> for each occurrence of an unknown name; an
  unknown name ends nothing. So once the loop over the names is over, a registered name has
  as many work items as it has occurrences in the list: exactly one when it is listed once.
  With no target names there is never a work item, and two steps of the main thread return.
\<close>

theorem dispatch_submits_each_registered_occurrence:
  assumes "chat_with_agents_init self msg agent_names = Inr st0"
    and "run rt st0 sched = Some st"
  shows "map agent_key (futures st) @ filter (registered (agents self)) (pending st)
           = filter (registered (agents self)) agent_names
    \<and> main_printed st
           @ map not_found_line (filter (\<lambda>n. \<not> registered (agents self) n) (pending st))
           = Out ([10] @ str ''Responses:'' @ [10])
               # map not_found_line (filter (\<lambda>n. \<not> registered (agents self) n) agent_names)
    \<and> (pending st = [] \<longrightarrow>
          length (filter (\<lambda>t. agent_key t = n) (futures st))
            = (if registered (agents self) n
               then length (filter (\<lambda>k. k = n) agent_names) else 0))
    \<and> (agent_names = [] \<longrightarrow>
          futures st = [] \<and> run rt st0 [Main, Main] = Some (st0\<lparr>mpc := Returned\<rparr>))"
proof -
  note a = reachable_accounted[OF assms]
  have 3: "length (filter (\<lambda>t. agent_key t = n) (futures st))
            = (if registered (agents self) n
               then length (filter (\<lambda>k. k = n) agent_names) else 0)"
    if "pending st = []"
  proof -
    from a(1) that
    have "map agent_key (futures st) = filter (registered (agents self)) agent_names" by simp
    then show ?thesis by (simp only: count_agent_key count_filter)
  qed
  have 4: "futures st = [] \<and> run rt st0 [Main, Main] = Some (st0\<lparr>mpc := Returned\<rparr>)"
    if e: "agent_names = []"
  proof -
    from a(1) e have f: "futures st = []" by simp
    from assms(1) e have "mpc st0 = L121 []" and "futures st0 = []"
      using init_state by auto
    then have "run rt st0 [Main, Main] = Some (st0\<lparr>mpc := Returned\<rparr>)"
      by (simp add: step_def main_step_def)
    with f show ?thesis by simp
  qed
  from a 3 4 show ?thesis by blast
qed

text \<open>
  Claim C7, witness: the batch \<open>X\<close>, \<open>ghost\<close> under the example schedule; one work item, for
  \<open>X\<close>, and one line for \<open>ghost\<close>.
\<close>

theorem dispatch_submits_each_registered_occurrence_witness:
  "chat_with_agents_init example_chat (str ''hi'') [str ''X'', str ''ghost'']
     = Inr (example_start [str ''X'', str ''ghost''])
   \<and> map_option (\<lambda>st. (pending st, map agent_key (futures st), main_printed st,
          length (filter (\<lambda>t. agent_key t = str ''X'') (futures st))))
        (run (\<lambda>i. answering_runtime) (example_start [str ''X'', str ''ghost'']) example_schedule)
      = Some ([], [str ''X''],
          [Out ([10] @ str ''Responses:'' @ [10]), not_found_line (str ''ghost'')], 1)"
proof -
  obtain st where r: "run (\<lambda>i. answering_runtime) (example_start [str ''X'', str ''ghost''])
      example_schedule = Some st" and m: "mpc st = Returned"
    by (rule example_schedule_state)
  from m have p: "pending st = []" by (simp add: pending_def)
  have x: "registered (agents example_chat) (str ''X'')"
    and g: "\<not> registered (agents example_chat) (str ''ghost'')"
    by (simp_all add: registered_def example_chat_def str_def)
  note i = example_start_init[of "[str ''X'', str ''ghost'']"]
  from dispatch_submits_each_registered_occurrence[OF i r, of "str ''X''"]
  have a: "map agent_key (futures st)
        @ filter (registered (agents example_chat)) (pending st)
        = filter (registered (agents example_chat)) [str ''X'', str ''ghost'']"
    and b: "main_printed st
        @ map not_found_line (filter (\<lambda>n. \<not> registered (agents example_chat) n) (pending st))
        = Out ([10] @ str ''Responses:'' @ [10])
            # map not_found_line
                (filter (\<lambda>n. \<not> registered (agents example_chat) n) [str ''X'', str ''ghost''])"
    and c: "pending st = [] \<longrightarrow>
        length (filter (\<lambda>t. agent_key t = str ''X'') (futures st))
          = (if registered (agents example_chat) (str ''X'')
             then length (filter (\<lambda>k. k = str ''X'') [str ''X'', str ''ghost'']) else 0)"
    by blast+
  from a p x g have "map agent_key (futures st) = [str ''X'']"
    by simp
  moreover from b p x g have "main_printed st
      = [Out ([10] @ str ''Responses:'' @ [10]), not_found_line (str ''ghost'')]"
    by simp
  moreover from c p x have "length (filter (\<lambda>t. agent_key t = str ''X'') (futures st)) = 1"
    by (simp add: str_def)
  ultimately show ?thesis using i r p by simp
qed

text \<open>
  Claim C7, counterexample: in the batch \<open>X\<close>, \<open>X\<close> the registered name \<open>X\<close> has two work
  items when the main thread starts to wait.
\<close>

theorem dispatch_duplicate_name_counterexample:
  "chat_with_agents_init example_chat (str ''hi'') [str ''X'', str ''X'']
     = Inr (example_start [str ''X'', str ''X''])
   \<and> map_option (\<lambda>st. (mpc st, map agent_key (futures st),
          length (filter (\<lambda>t. agent_key t = str ''X'') (futures st))))
        (run (\<lambda>i. answering_runtime) (example_start [str ''X'', str ''X'']) [Main, Main, Main])
      = Some (L130 0, [str ''X'', str ''X''], 2)"
  by (simp add: example_start_init) (simp add: example_defs step_eval str_def)

text \<open>
  Claim C9, as the code has it. When the target names are pairwise distinct, the work items
  of the batch are for pairwise distinct agents, in every state that a schedule reaches: no
  agent has more than one. Duplicates are neither refused nor collapsed.
\<close>

theorem distinct_targets_distinct_invocations:
  assumes "chat_with_agents_init self msg agent_names = Inr st0"
    and "run rt st0 sched = Some st"
    and "distinct agent_names"
  shows "distinct (map agent_key (futures st))
    \<and> length (filter (\<lambda>t. agent_key t = n) (futures st)) \<le> 1"
proof -
  from assms(3) have "distinct (filter (registered (agents self)) agent_names)" by simp
  with reachable_accounted(1)[OF assms(1,2)]
  have "distinct (map agent_key (futures st) @ filter (registered (agents self)) (pending st))"
    by simp
  then have d: "distinct (map agent_key (futures st))" by simp
  then have "length (filter (\<lambda>k. k = n) (map agent_key (futures st))) \<le> 1"
    by (rule distinct_count_le_1)
  with d show ?thesis by (simp only: count_agent_key)
qed

text \<open>Claim C9, witness: the batch \<open>X\<close>, \<open>ghost\<close> under the example schedule.\<close>

theorem distinct_targets_distinct_invocations_witness:
  "chat_with_agents_init example_chat (str ''hi'') [str ''X'', str ''ghost'']
     = Inr (example_start [str ''X'', str ''ghost''])
   \<and> distinct [str ''X'', str ''ghost'']
   \<and> map_option (\<lambda>st. distinct (map agent_key (futures st))
          \<and> length (filter (\<lambda>t. agent_key t = str ''X'') (futures st)) \<le> 1)
        (run (\<lambda>i. answering_runtime) (example_start [str ''X'', str ''ghost'']) example_schedule)
      = Some True"
proof -
  obtain st where r: "run (\<lambda>i. answering_runtime) (example_start [str ''X'', str ''ghost''])
      example_schedule = Some st"
    by (rule example_schedule_state)
  have d: "distinct [str ''X'', str ''ghost'']" by (simp add: str_def)
  note i = example_start_init[of "[str ''X'', str ''ghost'']"]
  from distinct_targets_distinct_invocations[OF i r d, of "str ''X''"] i r d
  show ?thesis by simp
qed

text \<open>
  Claim C9, counterexample: in the batch \<open>X\<close>, \<open>X\<close> the agent \<open>X\<close> has two work items. Under
  this schedule both have appended their user turn to the one history and neither has
  called the runtime yet: the two calls of \<^verbatim>\<open>stream_chat\<close> overlap.
\<close>

theorem overlapping_invocations_counterexample:
  "map_option
     (\<lambda>st. (map agent_key (futures st), map tpc (futures st),
            map (\<lambda>p. map role (conversation_history (snd p))) (registry st)))
     (run (\<lambda>i. answering_runtime) (example_start [str ''X'', str ''X''])
        [Main, Main, Worker 0, Worker 0, Worker 1, Worker 1])
   = Some ([str ''X'', str ''X''], [L36, L36], [[str ''user'', str ''user'']])"
  by (simp add: example_defs step_eval str_def)

section \<open>The history of an agent\<close>

lemma example_at_call_reached:
  "run (\<lambda>i. failing_runtime) (example_start [str ''X''])
     [Main, Main, Worker 0, Worker 0, Worker 0] = Some example_at_call"
  by (simp add: example_at_call_def example_defs step_eval str_def)

text \<open>
  Claim C5, witness: the runtime refuses the connection in the first chat turn of \<open>X\<close>. The
  history holds the user turn alone; in the dispatch the work item prints the error and is
  done.
\<close>

theorem failed_call_keeps_user_turn_witness:
  "stream_chat_request (add_message example_agent (str ''user'') (str ''hi'')) (YDict [])
     = Inr example_request
   \<and> failing_runtime example_request = Raises (Raised (str ''connection refused''))
   \<and> conversation_history (fst (stream_chat failing_runtime example_agent (str ''hi'') (YDict [])))
      = [\<lparr>role = str ''user'', content = str ''hi''\<rparr>]
   \<and> worker_step (\<lambda>i. failing_runtime) 0 example_at_call
      = Some (fail 0 (add_message example_agent (str ''user'') (str ''hi''))
                (Raised (str ''connection refused'')) example_at_call)
   \<and> tpc (futures (fail 0 (add_message example_agent (str ''user'') (str ''hi''))
                (Raised (str ''connection refused'')) example_at_call) ! 0) = Done
   \<and> registry (fail 0 (add_message example_agent (str ''user'') (str ''hi''))
                (Raised (str ''connection refused'')) example_at_call)
      = registry example_at_call"
proof -
  let ?a = "add_message example_agent (str ''user'') (str ''hi'')"
  let ?e = "Raised (str ''connection refused'')"
  have h1: "stream_chat_request ?a (YDict []) = Inr example_request"
    by (simp add: stream_chat_request_def example_request_def add_message_def example_agent_def
          Agent_init_def)
  have h2: "failing_runtime example_request = Raises ?e"
    by (simp add: failing_runtime_def)
  then have h2': "failing_runtime example_request = Raises ?e
      \<or> failing_runtime example_request = Stream [] (Some ?e)"
    by simp
  have s1: "0 < length (futures example_at_call)"
    and s2: "map_of (registry example_at_call) (agent_key (futures example_at_call ! 0)) = Some ?a"
    and s3: "tpc (futures example_at_call ! 0) = L40"
    and s4: "stream_chat_request ?a (batch_settings example_at_call) = Inr example_request"
    using h1 by (simp_all add: example_at_call_def)
  have e: "conversation_history example_agent = []"
    by (simp add: example_agent_def Agent_init_def)
  note t = failed_call_keeps_user_turn[where rt = failing_runtime and req = example_request
      and a = example_agent and msg = "str ''hi''" and cs = "YDict []" and e = ?e
      and chunks = "[]" and i = 0 and st = example_at_call and self = ?a
      and req' = example_request and rts = "\<lambda>i. failing_runtime", OF h1 h2']
  from t e have c2: "conversation_history
      (fst (stream_chat failing_runtime example_agent (str ''hi'') (YDict [])))
      = [\<lparr>role = str ''user'', content = str ''hi''\<rparr>]"
    by simp
  from t s1 s2 s3 s4 h2
  have "worker_step (\<lambda>i. failing_runtime) 0 example_at_call = Some (fail 0 ?a ?e example_at_call)"
    and "tpc (futures (fail 0 ?a ?e example_at_call) ! 0) = Done"
    and "registry (fail 0 ?a ?e example_at_call) = registry example_at_call"
    by blast+
  with h1 h2 c2 show ?thesis by blast
qed




section \<open>A work item that runs alone\<close>

text \<open>
  A work item that runs alone does what the function \<open>stream_chat\<close> computes. First the
  loop over the stream: each chunk is printed and added to the text.
\<close>

lemma set_tpc_same:
  assumes "tpc (futures st ! i) = p"
  shows "set_tpc i p st = st"
proof -
  have "(futures st ! i)\<lparr>tpc := p\<rparr> = (futures st ! i)\<lparr>tpc := tpc (futures st ! i)\<rparr>"
    by (simp only: assms)
  also have "\<dots> = futures st ! i" by simp
  finally have "(futures st)[i := (futures st ! i)\<lparr>tpc := p\<rparr>] = futures st" by simp
  then show ?thesis by (simp add: set_tpc_def)
qed

lemma solo_stream:
  assumes "i < length (futures st)"
    and "tpc (futures st ! i) = L49 chunks err acc"
    and "map_of (registry st) (agent_key (futures st ! i)) = Some a"
  shows "run rt st (replicate (length chunks) (Worker i))
    = Some (set_tpc i (L49 [] err (acc @ concat chunks))
        (st\<lparr>printed := printed st @ map (\<lambda>c. (WorkerThread i, Out c)) chunks\<rparr>))"
  using assms
proof (induction chunks arbitrary: st acc)
  case Nil
  from Nil(2) have "set_tpc i (L49 [] err acc) st = st" by (rule set_tpc_same)
  then show ?case by simp
next
  case (Cons c cs)
  define s1 where "s1 = set_tpc i (L49 cs err (acc @ c)) (emit (WorkerThread i) (Out c) st)"
  from Cons.prems have w: "worker_step rt i st = Some s1"
    by (simp add: worker_step_def s1_def)
  from Cons.prems have 1: "i < length (futures s1)"
    and 2: "tpc (futures s1 ! i) = L49 cs err (acc @ c)"
    and 3: "map_of (registry s1) (agent_key (futures s1 ! i)) = Some a"
    by (simp_all add: s1_def upd_defs)
  from 1 2 3 have "run rt s1 (replicate (length cs) (Worker i))
    = Some (set_tpc i (L49 [] err ((acc @ c) @ concat cs))
        (s1\<lparr>printed := printed s1 @ map (\<lambda>c. (WorkerThread i, Out c)) cs\<rparr>))"
    by (rule Cons.IH)
  moreover have "set_tpc i (L49 [] err ((acc @ c) @ concat cs))
        (s1\<lparr>printed := printed s1 @ map (\<lambda>c. (WorkerThread i, Out c)) cs\<rparr>)
      = set_tpc i (L49 [] err (acc @ concat (c # cs)))
        (st\<lparr>printed := printed st @ map (\<lambda>c. (WorkerThread i, Out c)) (c # cs)\<rparr>)"
    using Cons.prems(1) by (simp add: s1_def upd_defs)
  ultimately show ?case using w by (simp add: step_def)
qed

lemma run_append:
  "run rt st (xs @ ys) = (case run rt st xs of None \<Rightarrow> None | Some s \<Rightarrow> run rt s ys)"
  by (induction xs arbitrary: st) (auto split: option.splits)

lemma run_append_Some:
  "run rt st xs = Some s \<Longrightarrow> run rt s ys = Some s' \<Longrightarrow> run rt st (xs @ ys) = Some s'"
  by (simp add: run_append)

lemma run_worker: "worker_step rt i s = Some s' \<Longrightarrow> run rt s [Worker i] = Some s'"
  by (simp add: step_def)

text \<open>
  Then the whole turn: from the point where a worker thread has taken the work item, its
  steps alone lead to the end of the work item, and they change the agent and print what
  \<open>stream_chat\<close> returns for the agent, the message and the settings of the batch.
\<close>

lemma solo_turn:
  assumes i: "i < length (futures st)"
    and pc: "tpc (futures st ! i) = L33"
    and a: "map_of (registry st) (agent_key (futures st ! i)) = Some a"
  shows "\<exists>sched st'. set sched \<subseteq> {Worker i} \<and> run rt st sched = Some st'
    \<and> tpc (futures st' ! i) = Done
    \<and> map_of (registry st') (agent_key (futures st ! i))
        = Some (fst (stream_chat (rt i) a (user_message st) (batch_settings st)))
    \<and> printed st'
        = printed st
            @ map (Pair (WorkerThread i))
                (snd (stream_chat (rt i) a (user_message st) (batch_settings st)))"
proof -
  define key where "key = agent_key (futures st ! i)"
  define a1 where "a1 = add_message a (str ''user'') (user_message st)"
  define header where "header = Out ([10] @ name a1 @ str '': '')"
  define s1 where "s1 = set_tpc i L36
    (update_agent key (\<lambda>a. add_message a (str ''user'') (user_message st)) st)"
  define s2 where "s2 = set_tpc i L40 (emit (WorkerThread i) header s1)"
  have w1: "worker_step rt i st = Some s1"
    using i pc a by (simp add: worker_step_def s1_def key_def)
  have f1: "i < length (futures s1)" "tpc (futures s1 ! i) = L36"
    "agent_key (futures s1 ! i) = key" "map_of (registry s1) key = Some a1"
    "printed s1 = printed st" "user_message s1 = user_message st"
    "batch_settings s1 = batch_settings st"
    using i a by (simp_all add: s1_def upd_defs key_def a1_def map_of_map_entry)
  have w2: "worker_step rt i s1 = Some s2"
    using f1 by (simp add: worker_step_def s2_def header_def)
  have f2: "i < length (futures s2)" "tpc (futures s2 ! i) = L40"
    "agent_key (futures s2 ! i) = key" "map_of (registry s2) key = Some a1"
    "printed s2 = printed st @ [(WorkerThread i, header)]"
    "batch_settings s2 = batch_settings st"
    using f1 by (simp_all add: s2_def upd_defs)
  have r2: "run rt st [Worker i, Worker i] = Some s2"
    using w1 w2 by (simp add: step_def)
  have failing: ?thesis
    if w3: "worker_step rt i s2 = Some (fail i a1 e s2)"
      and sc: "stream_chat (rt i) a (user_message st) (batch_settings st)
        = (a1, [header, OutError (str ''Error from '' @ name a1 @ str '': '') e])"
    for e
  proof -
    have "run rt st ([Worker i, Worker i] @ [Worker i]) = Some (fail i a1 e s2)"
      using r2 run_worker[OF w3] by (rule run_append_Some)
    moreover have "tpc (futures (fail i a1 e s2) ! i) = Done"
      using f2 by (simp add: upd_defs)
    moreover have "map_of (registry (fail i a1 e s2)) key = Some a1"
      using f2 by (simp add: upd_defs)
    moreover have "printed (fail i a1 e s2) = printed st
        @ map (Pair (WorkerThread i)) [header, OutError (str ''Error from '' @ name a1 @ str '': '') e]"
      using f2 by (simp add: upd_defs)
    moreover have "set ([Worker i, Worker i] @ [Worker i]) \<subseteq> {Worker i}" by simp
    ultimately show ?thesis unfolding sc key_def[symmetric] by (metis fst_conv snd_conv)
  qed
  show ?thesis
  proof (cases "stream_chat_request a1 (batch_settings st)")
    case (Inl e)
    have "worker_step rt i s2 = Some (fail i a1 e s2)"
      using f2 Inl by (simp add: worker_step_def)
    moreover have "stream_chat (rt i) a (user_message st) (batch_settings st)
        = (a1, [header, OutError (str ''Error from '' @ name a1 @ str '': '') e])"
      using Inl by (simp add: stream_chat_def stream_chat_try_def Let_def a1_def header_def)
    ultimately show ?thesis by (rule failing)
  next
    case (Inr req)
    show ?thesis
    proof (cases "rt i req")
      case (Raises e)
      have "worker_step rt i s2 = Some (fail i a1 e s2)"
        using f2 Inr Raises by (simp add: worker_step_def)
      moreover have "stream_chat (rt i) a (user_message st) (batch_settings st)
          = (a1, [header, OutError (str ''Error from '' @ name a1 @ str '': '') e])"
        using Inr Raises
        by (simp add: stream_chat_def stream_chat_try_def Let_def a1_def header_def)
      ultimately show ?thesis by (rule failing)
    next
      case (Stream chunks err)
      define s3 where "s3 = set_tpc i (L49 chunks err []) s2"
      have w3: "worker_step rt i s2 = Some s3"
        using f2 Inr Stream by (simp add: worker_step_def s3_def)
      have f3: "i < length (futures s3)" "tpc (futures s3 ! i) = L49 chunks err []"
        "map_of (registry s3) (agent_key (futures s3 ! i)) = Some a1"
        using f2 by (simp_all add: s3_def upd_defs)
      define s4 where "s4 = set_tpc i (L49 [] err ([] @ concat chunks))
        (s3\<lparr>printed := printed s3 @ map (\<lambda>c. (WorkerThread i, Out c)) chunks\<rparr>)"
      have r4: "run rt s3 (replicate (length chunks) (Worker i)) = Some s4"
        unfolding s4_def using f3 by (rule solo_stream)
      have f4: "i < length (futures s4)" "tpc (futures s4 ! i) = L49 [] err (concat chunks)"
        "agent_key (futures s4 ! i) = key" "map_of (registry s4) key = Some a1"
        "printed s4 = printed st @ (WorkerThread i, header)
            # map (\<lambda>c. (WorkerThread i, Out c)) chunks"
        using f2 by (simp_all add: s4_def s3_def upd_defs)
      have "run rt s2 ([Worker i] @ replicate (length chunks) (Worker i)) = Some s4"
        using run_worker[OF w3] r4 by (rule run_append_Some)
      with r2
      have r: "run rt st ([Worker i, Worker i] @ [Worker i] @ replicate (length chunks) (Worker i))
          = Some s4"
        by (rule run_append_Some)
      show ?thesis
      proof (cases err)
        case (Some e)
        define s5 where "s5 = fail i a1 e s4"
        have w5: "worker_step rt i s4 = Some s5"
          using f4 Some by (simp add: worker_step_def s5_def)
        have sc: "stream_chat (rt i) a (user_message st) (batch_settings st)
            = (a1, header # map Out chunks
                 @ [OutError (str ''Error from '' @ name a1 @ str '': '') e])"
          using Inr Stream Some
          by (simp add: stream_chat_def stream_chat_try_def Let_def a1_def header_def)
        have "run rt st (([Worker i, Worker i] @ [Worker i]
            @ replicate (length chunks) (Worker i)) @ [Worker i]) = Some s5"
          using r run_worker[OF w5] by (rule run_append_Some)
        moreover have "tpc (futures s5 ! i) = Done"
          using f4 by (simp add: s5_def upd_defs)
        moreover have "map_of (registry s5) key = Some a1"
          using f4 by (simp add: s5_def upd_defs)
        moreover have "printed s5 = printed st @ map (Pair (WorkerThread i))
            (header # map Out chunks @ [OutError (str ''Error from '' @ name a1 @ str '': '') e])"
          using f4 by (simp add: s5_def upd_defs)
        moreover have "set (([Worker i, Worker i] @ [Worker i]
            @ replicate (length chunks) (Worker i)) @ [Worker i]) \<subseteq> {Worker i}"
          by auto
        ultimately show ?thesis unfolding sc key_def[symmetric] by (metis fst_conv snd_conv)
      next
        case None
        define a2 where "a2 = add_message a1 (str ''assistant'') (get_clean_response (concat chunks))"
        define s5 where "s5 = set_tpc i L59
          (update_agent key (\<lambda>a. add_message a (str ''assistant'')
             (get_clean_response (concat chunks))) s4)"
        define s6 where "s6 = set_tpc i Done (emit (WorkerThread i) (Out [10]) s5)"
        have w5: "worker_step rt i s4 = Some s5"
          using f4 None by (simp add: worker_step_def s5_def)
        have f5: "i < length (futures s5)" "tpc (futures s5 ! i) = L59"
          "agent_key (futures s5 ! i) = key" "map_of (registry s5) key = Some a2"
          "printed s5 = printed s4"
          using f4 by (simp_all add: s5_def upd_defs a2_def map_of_map_entry)
        have w6: "worker_step rt i s5 = Some s6"
          using f5 by (simp add: worker_step_def s6_def)
        have sc: "stream_chat (rt i) a (user_message st) (batch_settings st)
            = (a2, header # map Out chunks @ [Out [10]])"
          using Inr Stream None
          by (simp add: stream_chat_def stream_chat_try_def Let_def a1_def a2_def header_def)
        have "run rt s4 ([Worker i] @ [Worker i]) = Some s6"
          using run_worker[OF w5] run_worker[OF w6] by (rule run_append_Some)
        then have "run rt s4 [Worker i, Worker i] = Some s6" by simp
        with r have "run rt st (([Worker i, Worker i] @ [Worker i]
            @ replicate (length chunks) (Worker i)) @ [Worker i, Worker i]) = Some s6"
          by (rule run_append_Some)
        moreover have "tpc (futures s6 ! i) = Done"
          using f5 by (simp add: s6_def upd_defs)
        moreover have "map_of (registry s6) key = Some a2"
          using f5 by (simp add: s6_def upd_defs)
        moreover have "printed s6 = printed st @ map (Pair (WorkerThread i))
            (header # map Out chunks @ [Out [10]])"
          using f4 f5 by (simp add: s6_def upd_defs)
        moreover have "set (([Worker i, Worker i] @ [Worker i]
            @ replicate (length chunks) (Worker i)) @ [Worker i, Worker i]) \<subseteq> {Worker i}"
          by auto
        ultimately show ?thesis unfolding sc key_def[symmetric] by (metis fst_conv snd_conv)
      qed
    qed
  qed
qed

end
